theory Spec2Isabelle
  imports Complex_Main "HOL-Library.Word" "HOL-Library.Sublist" "HOL-Library.AList"
begin

section \<open>Local hybrid document search: the two services\<close>

text \<open>
  The development embeds \<^verbatim>\<open>src/services/simpleEmbeddingService.ts\<close> and
  \<^verbatim>\<open>src/services/simpleDocumentService.ts\<close>.

  Conventions of the embedding.
  \<^item> In the scoring of a search a JavaScript \<^verbatim>\<open>number\<close> is a \<^typ>\<open>real\<close> and arithmetic is
    exact. \<^verbatim>\<open>cosineSimilarity\<close> is given twice: over the reals, as the scoring uses it, and
    over IEEE 754 doubles with the rounding, overflow and underflow of every operation
    (\<open>cosineSimilarityD\<close>); statements on the value of the similarity itself are made on the
    second. Counts and lengths are \<^typ>\<open>nat\<close>.
  \<^item> A JavaScript string is a \<^typ>\<open>string\<close>: a list of code units below 256, read as the
    Latin-1 range of UTF-16.
  \<^item> A \<^verbatim>\<open>Map\<close> and a plain object used as a dictionary are association lists in
    insertion order; \<^const>\<open>AList.update\<close> is \<^verbatim>\<open>Map.set\<close> and property assignment (an existing
    key keeps its place, a new key goes last), \<^const>\<open>AList.delete\<close> is \<^verbatim>\<open>Map.delete\<close>.
    \<^verbatim>\<open>Object.keys\<close> and \<^verbatim>\<open>Object.entries\<close> enumerate array-index keys first.
  \<^item> The two singletons are fields of one record that every operation takes and returns.
  \<^item> \<^verbatim>\<open>console.log\<close> calls are left out. A source name that Isabelle reserves takes
    a prime: \<open>includes'\<close>, \<open>id'\<close>, \<open>keywords'\<close>, \<open>text'\<close>, \<open>context'\<close>.
\<close>

subsection \<open>Strings\<close>

definition charCode :: "char \<Rightarrow> nat" where
  "charCode c = of_char c"

text \<open>The class \<^verbatim>\<open>\s\<close> of a regular expression, which is also what \<^verbatim>\<open>trim\<close> strips:
  tab, line feed, vertical tab, form feed, carriage return, space, no-break space.\<close>

definition isSpace :: "char \<Rightarrow> bool" where
  "isSpace c = (charCode c \<in> {9, 10, 11, 12, 13, 32, 160})"

text \<open>The class \<^verbatim>\<open>\w\<close>: digits, ASCII letters and the underscore.\<close>

definition isWordChar :: "char \<Rightarrow> bool" where
  "isWordChar c =
     (let n = charCode c in
      (48 \<le> n \<and> n \<le> 57) \<or> (65 \<le> n \<and> n \<le> 90) \<or> n = 95 \<or> (97 \<le> n \<and> n \<le> 122))"

definition toLowerChar :: "char \<Rightarrow> char" where
  "toLowerChar c =
     (let n = charCode c in
      if (65 \<le> n \<and> n \<le> 90) \<or> (192 \<le> n \<and> n \<le> 222 \<and> n \<noteq> 215)
      then char_of (n + 32) else c)"

definition toLowerCase :: "string \<Rightarrow> string" where
  "toLowerCase s = map toLowerChar s"

definition trim :: "string \<Rightarrow> string" where
  "trim s = rev (dropWhile isSpace (rev (dropWhile isSpace s)))"

text \<open>\<^verbatim>\<open>s.includes(t)\<close>: \<open>t\<close> occurs in \<open>s\<close> as a contiguous substring.\<close>

fun includes' :: "string \<Rightarrow> string \<Rightarrow> bool" where
  "includes' [] t = (t = [])"
| "includes' (c # cs) t = (prefix t (c # cs) \<or> includes' cs t)"

text \<open>\<^verbatim>\<open>s.split(/[P]+/)\<close> for a character class \<open>P\<close>: the pieces between maximal runs of
  separator characters; a run at either end leaves an empty piece there, and the empty
  string splits into one empty piece.\<close>

function splitOn :: "(char \<Rightarrow> bool) \<Rightarrow> string \<Rightarrow> string list" where
  "splitOn P [] = [[]]"
| "splitOn P (c # cs) =
     (if P c then [] # splitOn P (dropWhile P cs)
      else (case splitOn P cs of w # ws \<Rightarrow> (c # w) # ws | [] \<Rightarrow> [[c]]))"
  by pat_completeness auto
termination
  by (relation "measure (\<lambda>(P, s). length s)") (auto simp: length_dropWhile_le less_Suc_eq_le)

text \<open>\<^verbatim>\<open>s.split('.')\<close> with a one-character string: every occurrence separates.\<close>

fun splitChar :: "char \<Rightarrow> string \<Rightarrow> string list" where
  "splitChar d [] = [[]]"
| "splitChar d (c # cs) =
     (if c = d then [] # splitChar d cs
      else (case splitChar d cs of w # ws \<Rightarrow> (c # w) # ws | [] \<Rightarrow> [[c]]))"

text \<open>\<^verbatim>\<open>Array.from(new Set(xs))\<close> and \<^verbatim>\<open>[...new Set(xs)]\<close>: the first occurrence of every
  element, in order.\<close>

definition arrayFromSet :: "'a list \<Rightarrow> 'a list" where
  "arrayFromSet xs = rev (remdups (rev xs))"

text \<open>\<^verbatim>\<open>Object.entries(obj)\<close> and \<^verbatim>\<open>Object.keys(obj)\<close>: the keys that are array indices
  (canonical decimal numerals below \<open>2^32 - 1\<close>) in ascending numeric order, then the other
  keys in insertion order.\<close>

definition isDigit :: "char \<Rightarrow> bool" where
  "isDigit c = (48 \<le> charCode c \<and> charCode c \<le> 57)"

definition digitsValue :: "string \<Rightarrow> nat" where
  "digitsValue k = foldl (\<lambda>n c. 10 * n + (charCode c - 48)) 0 k"

definition isArrayIndex :: "string \<Rightarrow> bool" where
  "isArrayIndex k =
     (k \<noteq> [] \<and> list_all isDigit k \<and> (k = ''0'' \<or> hd k \<noteq> CHR ''0'')
      \<and> digitsValue k < 2 ^ 32 - 1)"

definition objectEntries :: "(string \<times> 'v) list \<Rightarrow> (string \<times> 'v) list" where
  "objectEntries obj =
     sort_key (\<lambda>(k, v). digitsValue k) (filter (\<lambda>(k, v). isArrayIndex k) obj)
     @ filter (\<lambda>(k, v). \<not> isArrayIndex k) obj"

definition objectKeys :: "(string \<times> 'v) list \<Rightarrow> string list" where
  "objectKeys obj = map fst (objectEntries obj)"

text \<open>\<^verbatim>\<open>x || 0\<close> and \<^verbatim>\<open>x > 0\<close> for the value of a dictionary lookup, \<^verbatim>\<open>undefined\<close> when
  the key is absent.\<close>

definition orZero :: "real option \<Rightarrow> real" where
  "orZero x = (case x of None \<Rightarrow> 0 | Some v \<Rightarrow> v)"

definition isPositive :: "real option \<Rightarrow> bool" where
  "isPositive x = (case x of None \<Rightarrow> False | Some v \<Rightarrow> v > 0)"

text \<open>\<^verbatim>\<open>xs.sort(cmp)\<close>: a stable sort. An element goes before the first later element
  that the comparator does not put before it.\<close>

fun insertSorted :: "('a \<Rightarrow> 'a \<Rightarrow> real) \<Rightarrow> 'a \<Rightarrow> 'a list \<Rightarrow> 'a list" where
  "insertSorted cmp x [] = [x]"
| "insertSorted cmp x (y # ys) =
     (if cmp x y \<le> 0 then x # y # ys else y # insertSorted cmp x ys)"

definition arraySort :: "('a \<Rightarrow> 'a \<Rightarrow> real) \<Rightarrow> 'a list \<Rightarrow> 'a list" where
  "arraySort cmp xs = foldr (insertSorted cmp) xs []"

subsection \<open>SimpleEmbeddingService\<close>

type_synonym WordFrequency = "(string \<times> real) list"

record DocumentVector =
  tfidf :: WordFrequency
  normalized :: "real list"
  wordCount :: nat

record SimpleEmbeddingService =
  documents :: "(string \<times> DocumentVector) list"
  globalWordFreq :: WordFrequency
  totalDocuments :: nat
  vocabulary :: "string list"

datatype error = TypeError

definition stopWords :: "string list" where
  "stopWords =
     [''the'', ''and'', ''or'', ''but'', ''in'', ''on'', ''at'', ''to'', ''for'', ''of'', ''with'', ''by'',
      ''this'', ''that'', ''these'', ''those'', ''a'', ''an'', ''is'', ''are'', ''was'', ''were'', ''be'',
      ''been'', ''being'', ''have'', ''has'', ''had'', ''do'', ''does'', ''did'', ''will'', ''would'',
      ''could'', ''should'', ''may'', ''might'', ''must'', ''can'', ''shall'', ''from'', ''as'', ''it'',
      ''he'', ''she'', ''they'', ''we'', ''you'', ''me'', ''him'', ''her'', ''us'', ''them'', ''my'', ''your'',
      ''his'', ''its'', ''our'', ''their'', ''i'', ''am'', ''not'', ''no'', ''yes'', ''if'', ''when'', ''where'',
      ''what'', ''who'', ''how'', ''why'', ''which'', ''all'', ''any'', ''some'', ''many'', ''most'', ''few'']"

definition semanticMappings :: "(string \<times> string list) list" where
  "semanticMappings =
     [(''fruit'', [''apple'', ''apples'', ''banana'', ''bananas'', ''orange'', ''oranges'', ''grape'',
                  ''grapes'', ''berry'', ''berries'']),
      (''food'', [''apple'', ''apples'', ''banana'', ''bananas'', ''bread'', ''meat'', ''vegetable'',
                 ''vegetables'']),
      (''color'', [''red'', ''blue'', ''green'', ''yellow'', ''orange'', ''purple'', ''black'', ''white'']),
      (''animal'', [''dog'', ''cat'', ''bird'', ''fish'', ''lion'', ''tiger'', ''elephant'', ''horse'']),
      (''technology'', [''computer'', ''software'', ''app'', ''website'', ''digital'', ''tech'',
                       ''internet'']),
      (''business'', [''company'', ''corporation'', ''startup'', ''enterprise'', ''organization'',
                     ''firm''])]"

text \<open>\<^verbatim>\<open>semanticMappings\<close> is an object literal, so \<^verbatim>\<open>this.semanticMappings[word]\<close> also
  finds what every object inherits from \<^verbatim>\<open>Object.prototype\<close>. These values are functions
  (an object for \<^verbatim>\<open>__proto__\<close>): truthy, and not iterable.\<close>

definition objectPrototypeKeys :: "string list" where
  "objectPrototypeKeys =
     [''constructor'', ''__proto__'', ''hasOwnProperty'', ''isPrototypeOf'', ''propertyIsEnumerable'',
      ''toString'', ''toLocaleString'', ''valueOf'', ''__defineGetter__'', ''__defineSetter__'',
      ''__lookupGetter__'', ''__lookupSetter__'']"

definition preprocessText :: "string \<Rightarrow> string list" where
  "preprocessText text =
     filter (\<lambda>word. length word > 2 \<and> word \<notin> set stopWords)
       (splitOn isSpace
         (map (\<lambda>c. if isWordChar c \<or> isSpace c then c else CHR '' '') (toLowerCase text)))"

text \<open>The reverse lookup of \<^verbatim>\<open>expandSemanticTerms\<close>: the concepts that list the word.\<close>

definition reverseLookup :: "string \<Rightarrow> string list" where
  "reverseLookup word =
     map fst (filter (\<lambda>(concept, targets). word \<in> set targets) semanticMappings)"

text \<open>What one round of the \<^verbatim>\<open>words.forEach\<close> callback pushes. Spreading an inherited
  property into \<^verbatim>\<open>push\<close> throws a \<^verbatim>\<open>TypeError\<close>.\<close>

definition expandWord :: "string \<Rightarrow> error + string list" where
  "expandWord word =
     (case map_of semanticMappings word of
        Some targets \<Rightarrow> Inr (targets @ reverseLookup word)
      | None \<Rightarrow>
          if word \<in> set objectPrototypeKeys then Inl TypeError
          else Inr (reverseLookup word))"

fun pushExpansions :: "string list \<Rightarrow> string list \<Rightarrow> error + string list" where
  "pushExpansions expandedWords [] = Inr expandedWords"
| "pushExpansions expandedWords (word # rest) =
     (case expandWord word of
        Inl e \<Rightarrow> Inl e
      | Inr pushed \<Rightarrow> pushExpansions (expandedWords @ pushed) rest)"

definition expandSemanticTerms :: "string list \<Rightarrow> error + string list" where
  "expandSemanticTerms words =
     (case pushExpansions words words of
        Inl e \<Rightarrow> Inl e
      | Inr expandedWords \<Rightarrow> Inr (arrayFromSet expandedWords))"

text \<open>\<^verbatim>\<open>calculateTFIDF\<close> is only called on a list that \<^const>\<open>expandSemanticTerms\<close>
  returned, which holds no inherited property name.\<close>

definition calculateTFIDF :: "string list \<Rightarrow> WordFrequency" where
  "calculateTFIDF words =
     (let wordFreq =
            fold (\<lambda>word wf. AList.update word (orZero (map_of wf word) + 1) wf) words [];
          docLength = real (length words)
      in map (\<lambda>(word, n). (word, n / docLength)) wordFreq)"

definition calculateIDF :: "SimpleEmbeddingService \<Rightarrow> SimpleEmbeddingService" where
  "calculateIDF s =
     (let vocab = arrayFromSet (objectKeys (globalWordFreq s))
      in s\<lparr>vocabulary := vocab,
           globalWordFreq :=
             fold (\<lambda>word g.
                     let docCount =
                           length (filter (\<lambda>(i, doc). isPositive (map_of (tfidf doc) word))
                                     (documents s))
                     in if docCount > 0
                        then AList.update word (ln (real (totalDocuments s) / real docCount)) g
                        else g)
                  vocab (globalWordFreq s)\<rparr>)"

definition updateVocabulary :: "SimpleEmbeddingService \<Rightarrow> SimpleEmbeddingService" where
  "updateVocabulary s = (if totalDocuments s > 1 then calculateIDF s else s)"

text \<open>The 32-bit rolling hash: \<^verbatim>\<open>hash & hash\<close> wraps to a signed 32-bit integer after
  every character, \<^verbatim>\<open>Math.abs\<close> is taken on the number.\<close>

definition hashWord :: "string \<Rightarrow> nat" where
  "hashWord word =
     nat \<bar>sint (foldl (\<lambda>hash c. (push_bit 5 hash - hash) + of_nat (charCode c))
                  (0 :: 32 word) word)\<bar>"

definition semanticWeight :: "string \<Rightarrow> real" where
  "semanticWeight word =
     (let w1 = (if length word > 6 then 1 * 1.2 else 1);
          w2 = (if suffix ''ing'' word \<or> suffix ''tion'' word then w1 * 1.1 else w1)
      in if word \<in> set (map fst semanticMappings @ objectPrototypeKeys) then w2 * 1.5 else w2)"

text \<open>One round of \<^verbatim>\<open>uniqueWords.forEach\<close>. The index is below 100, so the update is
  always in range.\<close>

definition addWord :: "WordFrequency \<Rightarrow> string \<Rightarrow> real list \<Rightarrow> real list" where
  "addWord tf word vector =
     (let vectorIndex = hashWord word mod 100;
          frequency = orZero (map_of tf word)
      in vector[vectorIndex := vector ! vectorIndex + frequency * semanticWeight word])"

text \<open>Lines 141 and 158 to 183 of \<^verbatim>\<open>getEmbedding\<close>: the accumulated and normalised
  vector.\<close>

definition buildVector :: "WordFrequency \<Rightarrow> string list \<Rightarrow> real list" where
  "buildVector tf expandedWords =
     (let vector = fold (addWord tf) (arrayFromSet expandedWords) (replicate 100 0);
          magnitude = sqrt (foldl (\<lambda>sum val. sum + val * val) 0 vector)
      in if magnitude > 0 then map (\<lambda>val. val / magnitude) vector else vector)"

text \<open>\<^verbatim>\<open>getEmbedding(text, documentId?)\<close>. The optional identifier is falsy when it is
  absent or the empty string. An exception leaves before any assignment.\<close>

definition getEmbedding ::
  "string \<Rightarrow> string option \<Rightarrow> SimpleEmbeddingService \<Rightarrow> (error + real list) \<times> SimpleEmbeddingService"
where
  "getEmbedding text documentId s =
     (case expandSemanticTerms (preprocessText text) of
        Inl e \<Rightarrow> (Inl e, s)
      | Inr expandedWords \<Rightarrow>
          if length expandedWords = 0 then (Inr (replicate 100 0), s)
          else
            let tf = calculateTFIDF expandedWords;
                s1 = s\<lparr>globalWordFreq :=
                         fold (\<lambda>word g. AList.update word (orZero (map_of g word) + 1) g)
                           (objectKeys tf) (globalWordFreq s)\<rparr>;
                s2 = (case documentId of
                        None \<Rightarrow> s1
                      | Some i \<Rightarrow>
                          if i = [] then s1
                          else
                            let docs = AList.update i
                                         \<lparr>tfidf = tf, normalized = [],
                                          wordCount = length expandedWords\<rparr> (documents s1)
                            in s1\<lparr>documents := docs, totalDocuments := length docs\<rparr>)
            in (Inr (buildVector tf expandedWords), s2))"

definition cosineSimilarity :: "real list \<Rightarrow> real list \<Rightarrow> real" where
  "cosineSimilarity vectorA vectorB =
     (if length vectorA \<noteq> length vectorB \<or> length vectorA = 0 then 0
      else
        let dotProduct = foldl (\<lambda>sum (a, b). sum + a * b) 0 (zip vectorA vectorB);
            magnitudeA = sqrt (foldl (\<lambda>sum a. sum + a * a) 0 vectorA);
            magnitudeB = sqrt (foldl (\<lambda>sum b. sum + b * b) 0 vectorB)
        in if magnitudeA = 0 \<or> magnitudeB = 0 then 0
           else max 0 (min 1 (dotProduct / (magnitudeA * magnitudeB))))"

subsection \<open>The cosine similarity in double precision\<close>

text \<open>
  A \<open>double\<close> is a finite number, an infinity or NaN. The two zeros of IEEE 754 are the one
  value \<open>Num 0\<close>. In \<^verbatim>\<open>cosineSimilarity\<close> this loses nothing but the sign of a returned zero:
  every sum starts at \<open>+0\<close> and a sum of doubles is \<open>-0\<close> only if both terms are, the
  divisor is a product of two square roots and so never \<open>-0\<close>, and \<^verbatim>\<open>=== 0\<close>, \<^verbatim>\<open>Math.min\<close>
  and \<^verbatim>\<open>Math.max\<close> return the same number for either zero.

  \<open>roundD\<close> rounds a real to the nearest double, ties to the even significand. The doubles
  around \<open>x\<close> are the multiples of \<open>quantum x\<close>, which is \<open>2\<close> to the power of the exponent of
  \<open>x\<close> minus 52, and \<open>2\<close> to the power of \<open>- 1074\<close> in the subnormal range; a result of
  magnitude \<open>2\<close> to the power of 1024 or more is an infinity. \<open>dadd\<close>, \<open>dmul\<close>, \<open>ddiv\<close> and
  \<open>dsqrt\<close> are \<^verbatim>\<open>+\<close>, \<^verbatim>\<open>*\<close>, \<^verbatim>\<open>/\<close> and \<^verbatim>\<open>Math.sqrt\<close>: the exact result, rounded, with the
  rules of IEEE 754 for infinities and NaN. \<open>isZero\<close> is \<^verbatim>\<open>=== 0\<close>, \<open>mathMin1\<close> is
  \<^verbatim>\<open>Math.min(1, _)\<close> and \<open>mathMax0\<close> is \<^verbatim>\<open>Math.max(0, _)\<close>. The \<^verbatim>\<open>try\<close> block of the source
  encloses arithmetic on numbers only, which never throws.
\<close>

datatype double = Num real | PosInf | NegInf | NaN

definition rne :: "real \<Rightarrow> int" where
  "rne t =
     (let f = \<lfloor>t\<rfloor>; d = t - of_int f
      in if d < 1 / 2 then f else if 1 / 2 < d then f + 1 else if even f then f else f + 1)"

definition quantum :: "real \<Rightarrow> real" where
  "quantum x = 2 powr of_int (max \<lfloor>log 2 \<bar>x\<bar>\<rfloor> (- 1022) - 52)"

definition doubleLimit :: real where
  "doubleLimit = 2 ^ 1024"

definition roundD :: "real \<Rightarrow> double" where
  "roundD x =
     (if x = 0 then Num 0
      else
        let y = of_int (rne (x / quantum x)) * quantum x
        in if doubleLimit \<le> \<bar>y\<bar> then (if 0 < x then PosInf else NegInf) else Num y)"

fun dadd :: "double \<Rightarrow> double \<Rightarrow> double" where
  "dadd NaN y = NaN"
| "dadd x NaN = NaN"
| "dadd PosInf NegInf = NaN"
| "dadd NegInf PosInf = NaN"
| "dadd PosInf y = PosInf"
| "dadd x PosInf = PosInf"
| "dadd NegInf y = NegInf"
| "dadd x NegInf = NegInf"
| "dadd (Num a) (Num b) = roundD (a + b)"

definition timesInfinity :: "bool \<Rightarrow> double \<Rightarrow> double" where
  "timesInfinity positive y =
     (case y of
        NaN \<Rightarrow> NaN
      | PosInf \<Rightarrow> (if positive then PosInf else NegInf)
      | NegInf \<Rightarrow> (if positive then NegInf else PosInf)
      | Num b \<Rightarrow>
          if b = 0 then NaN
          else if (0 < b) = positive then PosInf else NegInf)"

fun dmul :: "double \<Rightarrow> double \<Rightarrow> double" where
  "dmul NaN y = NaN"
| "dmul x NaN = NaN"
| "dmul PosInf y = timesInfinity True y"
| "dmul NegInf y = timesInfinity False y"
| "dmul x PosInf = timesInfinity True x"
| "dmul x NegInf = timesInfinity False x"
| "dmul (Num a) (Num b) = roundD (a * b)"

fun ddiv :: "double \<Rightarrow> double \<Rightarrow> double" where
  "ddiv NaN y = NaN"
| "ddiv x NaN = NaN"
| "ddiv PosInf PosInf = NaN"
| "ddiv PosInf NegInf = NaN"
| "ddiv NegInf PosInf = NaN"
| "ddiv NegInf NegInf = NaN"
| "ddiv PosInf (Num b) = (if b < 0 then NegInf else PosInf)"
| "ddiv NegInf (Num b) = (if b < 0 then PosInf else NegInf)"
| "ddiv (Num a) PosInf = Num 0"
| "ddiv (Num a) NegInf = Num 0"
| "ddiv (Num a) (Num b) =
     (if b = 0 then (if a = 0 then NaN else if 0 < a then PosInf else NegInf)
      else roundD (a / b))"

fun dsqrt :: "double \<Rightarrow> double" where
  "dsqrt NaN = NaN"
| "dsqrt PosInf = PosInf"
| "dsqrt NegInf = NaN"
| "dsqrt (Num a) = (if a < 0 then NaN else roundD (sqrt a))"

fun isZero :: "double \<Rightarrow> bool" where
  "isZero (Num a) = (a = 0)"
| "isZero x = False"

fun mathMin1 :: "double \<Rightarrow> double" where
  "mathMin1 NaN = NaN"
| "mathMin1 PosInf = Num 1"
| "mathMin1 NegInf = NegInf"
| "mathMin1 (Num a) = Num (min 1 a)"

fun mathMax0 :: "double \<Rightarrow> double" where
  "mathMax0 NaN = NaN"
| "mathMax0 PosInf = PosInf"
| "mathMax0 NegInf = Num 0"
| "mathMax0 (Num a) = Num (max 0 a)"

definition cosineSimilarityD :: "double list \<Rightarrow> double list \<Rightarrow> double" where
  "cosineSimilarityD vectorA vectorB =
     (if length vectorA \<noteq> length vectorB \<or> length vectorA = 0 then Num 0
      else
        let dotProduct = foldl (\<lambda>sum (a, b). dadd sum (dmul a b)) (Num 0) (zip vectorA vectorB);
            magnitudeA = dsqrt (foldl (\<lambda>sum a. dadd sum (dmul a a)) (Num 0) vectorA);
            magnitudeB = dsqrt (foldl (\<lambda>sum b. dadd sum (dmul b b)) (Num 0) vectorB)
        in if isZero magnitudeA \<or> isZero magnitudeB then Num 0
           else mathMax0 (mathMin1 (ddiv dotProduct (dmul magnitudeA magnitudeB))))"

subsection \<open>SimpleDocumentService\<close>

datatype fileType = Pdf | Docx | Csv | Txt | Xlsx | Pptx

text \<open>The \<^verbatim>\<open>metadata\<close> of a document (a title and a random page count) is read by no
  operation of the two services and is left out.\<close>

record SimpleDocument =
  id' :: string
  filename :: string
  fileType :: fileType
  uploadedAt :: string
  fileSize :: nat
  extractedText :: string
  keywords' :: "string list"
  embedding :: "real list option"

record services =
  simpleDocumentService :: "(string \<times> SimpleDocument) list"
  simpleEmbeddingService :: SimpleEmbeddingService

datatype searchType = Semantic | Keyword | Hybrid

record matchedSection =
  text' :: string
  context' :: string

record searchResult =
  document :: SimpleDocument
  score :: real
  searchType :: searchType
  matchedSections :: "matchedSection list"

definition initialServices :: services where
  "initialServices =
     \<lparr>simpleDocumentService = [],
      simpleEmbeddingService =
        \<lparr>documents = [], globalWordFreq = [], totalDocuments = 0, vocabulary = []\<rparr>\<rparr>"

definition isStopWord :: "string \<Rightarrow> bool" where
  "isStopWord word =
     (word \<in> set
       [''the'', ''and'', ''or'', ''but'', ''in'', ''on'', ''at'', ''to'', ''for'', ''of'', ''with'', ''by'',
        ''this'', ''that'', ''these'', ''those'', ''a'', ''an'', ''is'', ''are'', ''was'', ''were'', ''be'',
        ''been'', ''being'', ''have'', ''has'', ''had'', ''do'', ''does'', ''did'', ''will'', ''would'',
        ''could'', ''should'', ''may'', ''might'', ''must'', ''can'', ''shall'', ''from'', ''text'',
        ''document'', ''file'', ''content'', ''contains'', ''includes''])"

text \<open>
  The table \<^verbatim>\<open>frequency\<close> of \<^verbatim>\<open>extractKeywords\<close> is an object literal too, and
  \<^verbatim>\<open>frequency[word] = (frequency[word] || 0) + 1\<close> reads what the object inherits.
  \<^item> For an inherited function (\<open>constructor\<close> is the one a lower-cased word can name) the
    sum is a string, the source text of the function followed by \<open>1\<close>; it is stored, and
    every later occurrence appends another \<open>1\<close>. The value is never a number again.
  \<^item> For \<open>__proto__\<close> the assignment calls the inherited setter with a string, which does
    nothing: the word never becomes a key.
  \<^item> Any other word is counted.
  The comparator \<^verbatim>\<open>b - a\<close> of the sort is \<^verbatim>\<open>NaN\<close> when one of the two values is
  such a string, and the sort reads \<^verbatim>\<open>NaN\<close> as 0. With such an entry the comparator is
  not consistent and the language leaves the order to the implementation; the model keeps
  the order of \<^const>\<open>arraySort\<close>.
\<close>

datatype tally = Count real | NotANumber

definition countWord :: "string \<Rightarrow> (string \<times> tally) list \<Rightarrow> (string \<times> tally) list" where
  "countWord word frequency =
     (if word = ''__proto__'' then frequency
      else
        (case map_of frequency word of
           Some (Count n) \<Rightarrow> AList.update word (Count (n + 1)) frequency
         | Some NotANumber \<Rightarrow> AList.update word NotANumber frequency
         | None \<Rightarrow>
             if word \<in> set objectPrototypeKeys then AList.update word NotANumber frequency
             else AList.update word (Count (0 + 1)) frequency))"

definition byCountDescending :: "string \<times> tally \<Rightarrow> string \<times> tally \<Rightarrow> real" where
  "byCountDescending x y =
     (case (snd x, snd y) of (Count a, Count b) \<Rightarrow> b - a | _ \<Rightarrow> 0)"

definition extractKeywords :: "string \<Rightarrow> string list" where
  "extractKeywords t =
     (let words =
            filter (\<lambda>word. \<not> isStopWord word)
              (filter (\<lambda>word. length word > 3)
                (splitOn isSpace
                  (map (\<lambda>c. if isWordChar c \<or> isSpace c then c else CHR '' '') (toLowerCase t))));
          frequency = fold countWord words []
      in map fst (take 8 (arraySort byCountDescending (objectEntries frequency))))"

definition getFileExtension :: "string \<Rightarrow> fileType option" where
  "getFileExtension name =
     (let ext = toLowerCase (last (splitChar CHR ''.'' name))
      in if ext = ''pdf'' then Some Pdf
         else if ext = ''docx'' then Some Docx
         else if ext = ''csv'' then Some Csv
         else if ext = ''txt'' then Some Txt
         else if ext = ''xlsx'' then Some Xlsx
         else if ext = ''pptx'' then Some Pptx
         else None)"

text \<open>
  What \<^verbatim>\<open>uploadDocument(file)\<close> reads from outside the two services: the file's name and
  size, the text that \<^verbatim>\<open>realTextExtraction\<close> returns for it (the extractors never throw:
  a failure yields a diagnostic text), the identifier \<^verbatim>\<open>generateId\<close> draws and the clock.
\<close>

record upload =
  fileName :: string
  fileBytes :: nat
  extracted :: string
  generatedId :: string
  clock :: string

text \<open>The result is \<^verbatim>\<open>{success: false, error}\<close> (\<open>Inl\<close>) or \<^verbatim>\<open>{success: true, document}\<close>.
  An exception of \<^verbatim>\<open>getEmbedding\<close> is caught and leaves the embedding undefined.\<close>

definition uploadDocument :: "upload \<Rightarrow> services \<Rightarrow> (string + SimpleDocument) \<times> services" where
  "uploadDocument file s =
     (case getFileExtension (fileName file) of
        None \<Rightarrow> (Inl ''Unsupported file type'', s)
      | Some fileExtension \<Rightarrow>
          let (r, e1) = getEmbedding (extracted file) (Some (generatedId file))
                          (simpleEmbeddingService s);
              doc = \<lparr>id' = generatedId file,
                     filename = fileName file,
                     fileType = fileExtension,
                     uploadedAt = clock file,
                     fileSize = fileBytes file,
                     extractedText = extracted file,
                     keywords' = extractKeywords (extracted file),
                     embedding = (case r of Inl e \<Rightarrow> None | Inr v \<Rightarrow> Some v)\<rparr>
          in (Inr doc,
              \<lparr>simpleDocumentService = AList.update (generatedId file) doc (simpleDocumentService s),
               simpleEmbeddingService = updateVocabulary e1\<rparr>))"

definition isSentenceEnd :: "char \<Rightarrow> bool" where
  "isSentenceEnd c = (c \<in> set ''.!?'')"

text \<open>The body of the \<^verbatim>\<open>for\<close> loop of \<^verbatim>\<open>searchDocuments\<close> for one document: the result it
  pushes, if any.\<close>

definition scoreDocument :: "real list option \<Rightarrow> string \<Rightarrow> SimpleDocument \<Rightarrow> searchResult option" where
  "scoreDocument queryEmbedding queryLower d =
     (let semanticScore =
            (case queryEmbedding of
               None \<Rightarrow> 0
             | Some q \<Rightarrow> (case embedding d of None \<Rightarrow> 0 | Some e \<Rightarrow> cosineSimilarity q e));
          k1 = (if includes' (toLowerCase (filename d)) queryLower then 0 + 0.3 else 0);
          keywordMatches =
            filter (\<lambda>keyword. includes' (toLowerCase keyword) queryLower
                              \<or> includes' queryLower (toLowerCase keyword)) (keywords' d);
          k2 = k1 + real (length keywordMatches) * 0.15;
          sentences =
            filter (\<lambda>sen. length (trim sen) > 0) (splitOn isSentenceEnd (extractedText d));
          (keywordScore, matches) =
            foldl (\<lambda>(ks, ms) sentence.
                     if includes' (toLowerCase sentence) queryLower
                     then (ks + 0.2, ms @ [\<lparr>text' = trim sentence, context' = trim sentence\<rparr>])
                     else (ks, ms))
                  (k2, []) sentences;
          minSemanticScore = 0.18;
          effectiveSemanticScore = (if semanticScore > minSemanticScore then semanticScore else 0);
          (finalScore, ty) =
            (if effectiveSemanticScore > 0 \<and> keywordScore > 0
             then (effectiveSemanticScore * 0.7 + keywordScore * 0.3, Hybrid)
             else if effectiveSemanticScore > 0 then (effectiveSemanticScore, Semantic)
             else if keywordScore > 0 then (min keywordScore 1.0, Keyword)
             else (0, Keyword));
          threshold = (if ty = Semantic then 0.15 else if ty = Hybrid then 0.1 else 0.1)
      in if finalScore > threshold
         then Some \<lparr>document = d, score = finalScore, searchType = ty,
                     matchedSections = take 3 matches\<rparr>
         else None)"

text \<open>\<^verbatim>\<open>searchDocuments(query)\<close>: the sorted results and the services afterwards. An
  exception of \<^verbatim>\<open>getEmbedding\<close> is caught and leaves the query embedding \<^verbatim>\<open>null\<close>.\<close>

definition searchDocuments :: "string \<Rightarrow> services \<Rightarrow> searchResult list \<times> services" where
  "searchDocuments query s =
     (if trim query = [] then ([], s)
      else
        let (r, e1) = getEmbedding query None (simpleEmbeddingService s);
            queryEmbedding = (case r of Inl e \<Rightarrow> None | Inr v \<Rightarrow> Some v);
            queryLower = toLowerCase query;
            results =
              List.map_filter (scoreDocument queryEmbedding queryLower)
                (map snd (simpleDocumentService s));
            sortedResults = take 10 (arraySort (\<lambda>a b. score b - score a) results)
        in (sortedResults, s\<lparr>simpleEmbeddingService := e1\<rparr>))"

definition getAllDocuments :: "services \<Rightarrow> SimpleDocument list" where
  "getAllDocuments s = map snd (simpleDocumentService s)"

definition deleteDocument :: "string \<Rightarrow> services \<Rightarrow> bool \<times> services" where
  "deleteDocument i s =
     (map_of (simpleDocumentService s) i \<noteq> None,
      s\<lparr>simpleDocumentService := AList.delete i (simpleDocumentService s)\<rparr>)"

subsection \<open>The signals of the scoring loop in closed form\<close>

text \<open>
  Three quantities that the loop of \<^verbatim>\<open>searchDocuments\<close> accumulates step by step, written
  as expressions of the document and the query. Lemma \<open>scoreDocument_closed\<close> below proves
  that they are what \<^const>\<open>scoreDocument\<close> computes.
\<close>

definition semanticScoreOf :: "real list option \<Rightarrow> SimpleDocument \<Rightarrow> real" where
  "semanticScoreOf queryEmbedding d =
     (case queryEmbedding of
        None \<Rightarrow> 0
      | Some q \<Rightarrow> (case embedding d of None \<Rightarrow> 0 | Some e \<Rightarrow> cosineSimilarity q e))"

definition matchingSentences :: "string \<Rightarrow> SimpleDocument \<Rightarrow> string list" where
  "matchingSentences queryLower d =
     filter (\<lambda>sen. includes' (toLowerCase sen) queryLower)
       (filter (\<lambda>sen. length (trim sen) > 0) (splitOn isSentenceEnd (extractedText d)))"

definition keywordScoreOf :: "string \<Rightarrow> SimpleDocument \<Rightarrow> real" where
  "keywordScoreOf queryLower d =
     (if includes' (toLowerCase (filename d)) queryLower then 0.3 else 0)
     + real (length (filter (\<lambda>keyword. includes' (toLowerCase keyword) queryLower
                                      \<or> includes' queryLower (toLowerCase keyword)) (keywords' d)))
       * 0.15
     + 0.2 * real (length (matchingSentences queryLower d))"

definition sectionOf :: "string \<Rightarrow> matchedSection" where
  "sectionOf sentence = \<lparr>text' = trim sentence, context' = trim sentence\<rparr>"

subsection \<open>Sequences of operations and example inputs\<close>

datatype operation = Upload upload | Delete string | Search string

fun perform :: "operation \<Rightarrow> services \<Rightarrow> services" where
  "perform (Upload file) s = snd (uploadDocument file s)"
| "perform (Delete i) s = snd (deleteDocument i s)"
| "perform (Search query) s = snd (searchDocuments query s)"

definition run :: "operation list \<Rightarrow> services \<Rightarrow> services" where
  "run ops s = fold perform ops s"

text \<open>A first document, the state of the embedding service after its upload, and the
  result of the query \<open>zebra\<close> for it.\<close>

definition zebraFile :: upload where
  "zebraFile =
     \<lparr>fileName = ''zebra.txt'', fileBytes = 20, extracted = ''zebra. zebra. zebra.'',
      generatedId = ''doc1'', clock = ''2025-01-01T00:00:00.000Z''\<rparr>"

definition zebraVector :: "real list" where
  "zebraVector = buildVector (calculateTFIDF [''zebra'']) [''zebra'']"

definition zebraDocument :: SimpleDocument where
  "zebraDocument =
     \<lparr>id' = ''doc1'', filename = ''zebra.txt'', fileType = Txt,
      uploadedAt = ''2025-01-01T00:00:00.000Z'', fileSize = 20,
      extractedText = ''zebra. zebra. zebra.'', keywords' = [''zebra''],
      embedding = Some zebraVector\<rparr>"

definition zebraStatistics :: SimpleEmbeddingService where
  "zebraStatistics =
     \<lparr>documents = [(''doc1'', \<lparr>tfidf = [(''zebra'', 1)], normalized = [], wordCount = 1\<rparr>)],
      globalWordFreq = [(''zebra'', 1)], totalDocuments = 1, vocabulary = []\<rparr>"

definition zebraResult :: searchResult where
  "zebraResult =
     \<lparr>document = zebraDocument, score = 203 / 200, searchType = Hybrid,
      matchedSections = map sectionOf [''zebra'', '' zebra'', '' zebra'']\<rparr>"

text \<open>A text file that holds a byte-order mark only: the text read from it is empty.\<close>

definition blankFile :: upload where
  "blankFile =
     \<lparr>fileName = ''zebra.txt'', fileBytes = 3, extracted = '''',
      generatedId = ''doc2'', clock = ''2025-01-02T00:00:00.000Z''\<rparr>"

definition blankDocument :: SimpleDocument where
  "blankDocument =
     \<lparr>id' = ''doc2'', filename = ''zebra.txt'', fileType = Txt,
      uploadedAt = ''2025-01-02T00:00:00.000Z'', fileSize = 3,
      extractedText = '''', keywords' = [], embedding = Some (replicate 100 0)\<rparr>"

text \<open>Two more documents about zebras: a copy of the first under another identifier, and
  a longer one with four sentences.\<close>

definition zebraCopy :: upload where
  "zebraCopy =
     \<lparr>fileName = ''zebra.txt'', fileBytes = 20, extracted = ''zebra. zebra. zebra.'',
      generatedId = ''doc3'', clock = ''2025-01-03T00:00:00.000Z''\<rparr>"

definition zebraLong :: upload where
  "zebraLong =
     \<lparr>fileName = ''zebras.txt'', fileBytes = 27, extracted = ''zebra. zebra. zebra. zebra.'',
      generatedId = ''doc4'', clock = ''2025-01-04T00:00:00.000Z''\<rparr>"

definition zebraCopyDocument :: SimpleDocument where
  "zebraCopyDocument =
     \<lparr>id' = ''doc3'', filename = ''zebra.txt'', fileType = Txt,
      uploadedAt = ''2025-01-03T00:00:00.000Z'', fileSize = 20,
      extractedText = ''zebra. zebra. zebra.'', keywords' = [''zebra''],
      embedding = Some zebraVector\<rparr>"

definition zebraLongDocument :: SimpleDocument where
  "zebraLongDocument =
     \<lparr>id' = ''doc4'', filename = ''zebras.txt'', fileType = Txt,
      uploadedAt = ''2025-01-04T00:00:00.000Z'', fileSize = 27,
      extractedText = ''zebra. zebra. zebra. zebra.'', keywords' = [''zebra''],
      embedding = Some zebraVector\<rparr>"

definition threeZebras :: "operation list" where
  "threeZebras = [Upload zebraFile, Upload zebraCopy, Upload zebraLong]"

definition zebraCopyResult :: searchResult where
  "zebraCopyResult =
     \<lparr>document = zebraCopyDocument, score = 203 / 200, searchType = Hybrid,
      matchedSections = map sectionOf [''zebra'', '' zebra'', '' zebra'']\<rparr>"

definition zebraLongResult :: searchResult where
  "zebraLongResult =
     \<lparr>document = zebraLongDocument, score = 43 / 40, searchType = Hybrid,
      matchedSections = map sectionOf [''zebra'', '' zebra'', '' zebra'']\<rparr>"

text \<open>An upload that the embedding service records: the identifier is truthy and the text
  yields at least one term without an exception.\<close>

definition indexable :: "upload \<Rightarrow> bool" where
  "indexable file =
     (generatedId file \<noteq> []
      \<and> (case expandSemanticTerms (preprocessText (extracted file)) of
            Inl e \<Rightarrow> False
          | Inr expandedWords \<Rightarrow> expandedWords \<noteq> []))"

definition insertOnly :: "operation \<Rightarrow> bool" where
  "insertOnly op =
     (case op of Upload file \<Rightarrow> indexable file | Delete i \<Rightarrow> False | Search query \<Rightarrow> True)"

text \<open>Two invariants of the states that sequences of operations reach. The first holds
  while nothing is deleted and every upload is recorded: both tables list the same keys
  in the same order. The second says that the stored fields of a document are the ones
  \<^const>\<open>uploadDocument\<close> computes from its text.\<close>

definition counted :: "services \<Rightarrow> bool" where
  "counted s =
     (map fst (simpleDocumentService s) = map fst (documents (simpleEmbeddingService s))
      \<and> totalDocuments (simpleEmbeddingService s) = length (documents (simpleEmbeddingService s)))"

definition derived :: "SimpleDocument \<Rightarrow> bool" where
  "derived d =
     (embedding d
        = (case fst (getEmbedding (extractedText d) None (simpleEmbeddingService initialServices)) of
             Inl e \<Rightarrow> None | Inr v \<Rightarrow> Some v)
      \<and> keywords' d = extractKeywords (extractedText d))"

section \<open>Library facts\<close>

subsection \<open>The sort with a descending comparator\<close>

lemma insertSorted_desc:
  "insertSorted (\<lambda>a b. f b - f a) x ys = insort_key (\<lambda>r. - f r) x ys"
  by (induction ys) auto

lemma arraySort_desc: "arraySort (\<lambda>a b. f b - f a) xs = sort_key (\<lambda>r. - f r) xs"
  by (induction xs) (simp_all add: arraySort_def sort_key_def insertSorted_desc)

lemma sorted_arraySort_desc:
  "sorted_wrt (\<lambda>a b. f a \<ge> f b) (arraySort (\<lambda>a b. f b - f a) xs)"
proof -
  have "sorted (map (\<lambda>r. - f r) (sort_key (\<lambda>r. - f r) xs))"
    by (rule sorted_sort_key)
  then show ?thesis
    by (simp add: arraySort_desc sorted_map sorted_wrt_iff_nth_less)
qed

lemma stable_arraySort_desc:
  "filter (\<lambda>r. f r = k) (arraySort (\<lambda>a b. f b - f a) xs) = filter (\<lambda>r. f r = k) xs"
proof -
  have "filter (\<lambda>r. - f r = - k) (sort_key (\<lambda>r. - f r) xs) = filter (\<lambda>r. - f r = - k) xs"
    by (rule sort_key_stable)
  then show ?thesis by (simp add: arraySort_desc)
qed

lemma set_arraySort_desc: "set (arraySort (\<lambda>a b. f b - f a) xs) = set xs"
  by (simp add: arraySort_desc)

lemma subseq_filter_take: "subseq (filter P (take n xs)) (filter P xs)"
proof -
  have "subseq (take n xs) (take n xs @ drop n xs)"
    by (rule subseq_rev_drop_many) simp
  then have "subseq (take n xs) xs" by simp
  then show ?thesis by (rule subseq_filter)
qed

lemma subseq_map_filter:
  "(\<And>x y. f x = Some y \<Longrightarrow> g y = x) \<Longrightarrow> subseq (map g (List.map_filter f xs)) xs"
  by (induction xs) (auto split: option.splits)

subsection \<open>Sums of squares and dot products\<close>

lemma foldl_squares: "foldl (\<lambda>sum a. sum + a * a) z v = z + sum_list (map (\<lambda>a. a * a) v)"
  for z :: real
  by (induction v arbitrary: z) simp_all

lemma foldl_dot:
  "foldl (\<lambda>sum (a, b). sum + a * b) z (zip v w) = z + sum_list (map (\<lambda>(a, b). a * b) (zip v w))"
  for z :: real
  by (induction v w arbitrary: z rule: list_induct2') simp_all

lemma dot_self: "sum_list (map (\<lambda>(a, b). a * b) (zip v v)) = sum_list (map (\<lambda>a. a * a) v)"
  for v :: "real list"
  by (induction v) simp_all

lemma squares_nonneg: "0 \<le> sum_list (map (\<lambda>a. a * a) v)" for v :: "real list"
  by (induction v) simp_all

lemma squares_pos: "\<exists>x\<in>set v. x \<noteq> 0 \<Longrightarrow> 0 < sum_list (map (\<lambda>a. a * a) v)" for v :: "real list"
proof (induction v)
  case Nil
  then show ?case by simp
next
  case (Cons a v)
  show ?case
  proof (cases "a = 0")
    case True
    with Cons show ?thesis by simp
  next
    case False
    then have "0 < a * a" using zero_less_mult_iff [of a a] by auto
    with squares_nonneg [of v] show ?thesis by simp
  qed
qed

lemma squares_replicate_zero: "sum_list (map (\<lambda>a. a * a) (replicate n (0 :: real))) = 0"
  by (induction n) simp_all

section \<open>The cosine similarity\<close>

lemma cosineSimilarity_self:
  assumes "\<exists>x\<in>set v. x \<noteq> 0"
  shows "cosineSimilarity v v = 1"
proof -
  let ?S = "sum_list (map (\<lambda>a. a * a) v)"
  have pos: "0 < ?S" using assms by (rule squares_pos)
  have ne: "v \<noteq> []" using assms by auto
  have "sqrt ?S * sqrt ?S = ?S" using pos by simp
  then show ?thesis
    using pos ne by (simp add: cosineSimilarity_def foldl_squares foldl_dot dot_self Let_def)
qed

lemma cosineSimilarity_zero: "cosineSimilarity v (replicate n 0) = 0"
proof -
  have "foldl (\<lambda>sum b. sum + b * b) 0 (replicate n (0 :: real)) = 0"
    by (simp only: foldl_squares squares_replicate_zero)
  then show ?thesis
    by (simp add: cosineSimilarity_def Let_def)
qed

lemma cosineSimilarity_range: "0 \<le> cosineSimilarity a b \<and> cosineSimilarity a b \<le> 1"
  by (simp add: cosineSimilarity_def Let_def)

text \<open>
  Over the reals the similarity of a vector with a non-zero component to itself is 1, and
  the similarity of any vector to a zero vector is 0; the scoring of a search uses these
  two facts.
\<close>

subsection \<open>Rounding to a double\<close>

lemma rne_error: "\<bar>of_int (rne t) - t\<bar> \<le> 1 / 2"
  unfolding rne_def Let_def by (auto simp: abs_le_iff)

lemma rne_near: "\<bar>t - of_int n\<bar> < 1 / 2 \<Longrightarrow> rne t = n"
proof -
  assume a: "\<bar>t - of_int n\<bar> < 1 / 2"
  have "\<bar>of_int (rne t) - t\<bar> \<le> 1 / 2" by (rule rne_error)
  with a have "\<bar>(of_int (rne t) :: real) - of_int n\<bar> < 1" by linarith
  then have "\<bar>rne t - n\<bar> < 1"
    by (metis of_int_diff of_int_abs of_int_less_1_iff)
  then show ?thesis by linarith
qed

lemma floor_log2:
  assumes "2 powr of_int e \<le> x" "x < 2 powr (of_int e + 1)"
  shows "\<lfloor>log 2 x\<rfloor> = e"
proof -
  have pos: "0 < x" using assms(1) powr_gt_zero [of 2 "of_int e"] by linarith
  have "of_int e \<le> log 2 x" using assms(1) pos by (simp add: le_log_iff)
  moreover have "log 2 x < of_int e + 1" using assms(2) pos by (simp add: log_less_iff)
  ultimately show ?thesis by linarith
qed

lemma roundD_eval:
  assumes "2 powr of_int e \<le> \<bar>x\<bar>" "\<bar>x\<bar> < 2 powr (of_int e + 1)" "- 1022 \<le> e"
    and "\<bar>x / 2 powr of_int (e - 52) - of_int n\<bar> < 1 / 2"
    and "\<bar>of_int n * 2 powr of_int (e - 52)\<bar> < doubleLimit"
  shows "roundD x = Num (of_int n * 2 powr of_int (e - 52))"
proof -
  have "\<lfloor>log 2 \<bar>x\<bar>\<rfloor> = e" using assms(1,2) by (rule floor_log2)
  with assms(3) have "max \<lfloor>log 2 \<bar>x\<bar>\<rfloor> (- 1022) = e" by simp
  then have q: "quantum x = 2 powr of_int (e - 52)"
    by (simp only: quantum_def)
  have "x \<noteq> 0" using assms(1) powr_gt_zero [of 2 "of_int e"] by auto
  moreover have "rne (x / quantum x) = n" using assms(4) q by (simp add: rne_near)
  ultimately show ?thesis using assms(5) q by (simp add: roundD_def Let_def)
qed

lemma abs_scale: "0 < q \<Longrightarrow> \<bar>a - x / q\<bar> * q = \<bar>a * q - x\<bar>" for q :: real
proof -
  assume q: "0 < q"
  then have "\<bar>a - x / q\<bar> * q = \<bar>(a - x / q) * q\<bar>" by (simp add: abs_mult)
  also have "(a - x / q) * q = a * q - x" using q by (simp add: field_simps)
  finally show ?thesis .
qed

lemma roundD_rel:
  assumes "2 powr (- 1022) \<le> x" "x \<le> 2 powr 1023"
  shows "\<exists>y. roundD x = Num y \<and> x * (1 - 2 powr (- 53)) \<le> y \<and> y \<le> x * (1 + 2 powr (- 53))"
proof -
  have pos: "0 < x" using assms(1) powr_gt_zero [of 2 "- 1022"] by linarith
  define e where "e = \<lfloor>log 2 x\<rfloor>"
  have "- 1022 \<le> log 2 x" using assms(1) pos by (simp add: le_log_iff)
  then have e: "- 1022 \<le> e" unfolding e_def by linarith
  have "of_int e \<le> log 2 x" unfolding e_def by simp
  then have lo: "2 powr of_int e \<le> x" using pos by (simp add: le_log_iff)
  have "max \<lfloor>log 2 \<bar>x\<bar>\<rfloor> (- 1022) = e"
    using e pos by (simp add: e_def)
  then have q: "quantum x = 2 powr of_int (e - 52)"
    by (simp only: quantum_def)
  define y where "y = of_int (rne (x / quantum x)) * quantum x"
  have qpos: "0 < quantum x" by (simp add: q)
  have "\<bar>of_int (rne (x / quantum x)) - x / quantum x\<bar> \<le> 1 / 2" by (rule rne_error)
  then have "\<bar>of_int (rne (x / quantum x)) - x / quantum x\<bar> * quantum x \<le> 1 / 2 * quantum x"
    using qpos by (simp add: mult_right_mono)
  moreover have "\<bar>of_int (rne (x / quantum x)) - x / quantum x\<bar> * quantum x = \<bar>y - x\<bar>"
    using qpos unfolding y_def by (rule abs_scale)
  ultimately have err: "\<bar>y - x\<bar> \<le> 1 / 2 * quantum x" by simp
  have "1 / 2 * quantum x = 2 powr of_int e * 2 powr (- 53)"
    by (simp add: q powr_diff powr_minus divide_simps flip: powr_add)
  also have "\<dots> \<le> x * 2 powr (- 53)" using lo by (simp add: mult_right_mono)
  finally have err2: "\<bar>y - x\<bar> \<le> x * 2 powr (- 53)" using err by linarith
  have u: "2 powr (- 53) < (1 :: real)" by (simp add: powr_minus divide_simps)
  have "\<bar>y\<bar> \<le> x * (1 + 2 powr (- 53))" using err2 pos by (simp add: algebra_simps abs_le_iff) 
  also have "\<dots> < x * 2" using pos u by simp
  also have "\<dots> \<le> 2 powr 1023 * 2" using assms(2) by simp
  also have "\<dots> = doubleLimit" by (simp add: doubleLimit_def)
  finally have no: "\<not> doubleLimit \<le> \<bar>y\<bar>" by simp
  have "roundD x = Num y" using pos no by (simp add: roundD_def Let_def y_def)
  moreover have "x * (1 - 2 powr (- 53)) \<le> y" "y \<le> x * (1 + 2 powr (- 53))"
    using err2 by (simp_all add: algebra_simps abs_le_iff)
  ultimately show ?thesis by blast
qed

lemma roundD_zero: "roundD 0 = Num 0"
  by (simp add: roundD_def)

lemma quantum_power:
  "quantum (2 powr of_int e) = 2 powr of_int (max e (- 1022) - 52)"
proof -
  have "\<lfloor>log 2 \<bar>2 powr of_int e\<bar>\<rfloor> = e" by simp
  then show ?thesis by (simp only: quantum_def)
qed

lemma roundD_underflow:
  assumes "rne (x / quantum x) = 0"
  shows "roundD x = Num 0"
  using assms by (simp add: roundD_def Let_def doubleLimit_def)

lemma roundD_overflow:
  assumes "0 < x" "rne (x / quantum x) = n" "doubleLimit \<le> \<bar>of_int n * quantum x\<bar>"
  shows "roundD x = PosInf"
  using assms by (simp add: roundD_def Let_def)

lemma round_underflow: "roundD (2 powr (- 1200)) = Num 0"
proof -
  define x :: real where "x = 2 powr (- 1200)"
  have q: "quantum x = 2 powr (- 1074)"
    unfolding x_def using quantum_power [of "- 1200"] by simp
  have "x / 2 powr (- 1074) = 2 powr (- 126)"
    unfolding x_def by (simp flip: powr_diff)
  moreover have "\<bar>(2::real) powr (- 126) - of_int 0\<bar> < 1 / 2"
    by (simp add: powr_neg_numeral)
  ultimately have "rne (x / quantum x) = 0"
    by (simp only: q rne_near)
  then have "roundD x = Num 0" by (rule roundD_underflow)
  then show ?thesis by (simp only: x_def)
qed

lemma round_overflow: "roundD (2 powr 1200) = PosInf"
proof -
  define x :: real where "x = 2 powr 1200"
  have "x = 2 powr of_int 1200" by (simp add: x_def)
  then have "quantum x = 2 powr of_int (max 1200 (- 1022) - 52)"
    by (simp only: quantum_power)
  then have q: "quantum x = 2 powr 1148" by simp
  have pos: "0 < x" by (simp add: x_def)
  have "x / 2 powr 1148 = 2 powr 52"
    unfolding x_def by (simp flip: powr_diff)
  moreover have "\<bar>(2::real) powr 52 - of_int (2 ^ 52)\<bar> < 1 / 2"
    by simp
  ultimately have r: "rne (x / quantum x) = 2 ^ 52"
    by (simp only: q rne_near)
  have "of_int (2 ^ 52) * quantum x = x"
    unfolding q unfolding x_def by simp
  moreover have "doubleLimit \<le> \<bar>x\<bar>"
    by (simp add: doubleLimit_def x_def)
  ultimately have "doubleLimit \<le> \<bar>of_int (2 ^ 52) * quantum x\<bar>"
    by (simp only:)
  with pos r have "roundD x = PosInf" by (rule roundD_overflow)
  then show ?thesis by (simp only: x_def)
qed

lemma round_one: "roundD 1 = Num 1"
proof -
  have "roundD 1 = Num (of_int (2 ^ 52) * 2 powr of_int (0 - 52))"
    by (rule roundD_eval) (simp_all add: doubleLimit_def powr_neg_numeral)
  then show ?thesis by (simp add: powr_neg_numeral)
qed

lemma round_two: "roundD 2 = Num 2"
proof -
  have "roundD 2 = Num (of_int (2 ^ 52) * 2 powr of_int (1 - 52))"
    by (rule roundD_eval) (simp_all add: doubleLimit_def powr_neg_numeral)
  then show ?thesis by (simp add: powr_neg_numeral)
qed

lemma sqrt_two_bounds:
  "(6369051672525773 - 1 / 2) / 2 ^ 52 < sqrt 2" "sqrt 2 < (6369051672525773 + 1 / 2) / 2 ^ 52"
proof -
  show "(6369051672525773 - 1 / 2) / 2 ^ 52 < sqrt 2"
    by (rule real_less_rsqrt) (simp add: power2_eq_square)
  show "sqrt 2 < (6369051672525773 + 1 / 2) / 2 ^ 52"
    by (rule real_less_lsqrt) (simp_all add: power2_eq_square)
qed

lemma round_sqrt_two: "roundD (sqrt 2) = Num (6369051672525773 / 2 ^ 52)"
proof -
  have 1: "2 powr of_int 0 \<le> \<bar>sqrt 2\<bar>" by simp
  have "sqrt 2 < 2" by (rule real_less_lsqrt) simp_all
  then have 2: "\<bar>sqrt 2\<bar> < 2 powr (of_int 0 + 1)" by simp
  have "6369051672525773 - 1 / 2 < sqrt 2 * 2 ^ 52" "sqrt 2 * 2 ^ 52 < 6369051672525773 + 1 / 2"
    using sqrt_two_bounds by (simp_all add: field_simps)
  then have "\<bar>sqrt 2 * 2 ^ 52 - 6369051672525773\<bar> < 1 / 2"
    by linarith
  then have 3: "\<bar>sqrt 2 / 2 powr of_int (0 - 52) - of_int 6369051672525773\<bar> < 1 / 2"
    by (simp add: powr_neg_numeral)
  have 4: "\<bar>of_int 6369051672525773 * 2 powr of_int (0 - 52)\<bar> < doubleLimit"
    by (simp add: doubleLimit_def powr_neg_numeral)
  have "roundD (sqrt 2) = Num (of_int 6369051672525773 * 2 powr of_int (0 - 52))"
    using 1 2 _ 3 4 by (rule roundD_eval) simp
  then show ?thesis by (simp add: powr_neg_numeral)
qed

lemma round_product:
  "roundD (6369051672525773 / 2 ^ 52 * (6369051672525773 / 2 ^ 52)) = Num (4503599627370497 / 2 ^ 51)"
proof -
  have "roundD (6369051672525773 / 2 ^ 52 * (6369051672525773 / 2 ^ 52))
        = Num (of_int 4503599627370497 * 2 powr of_int (1 - 52))"
    by (rule roundD_eval) (simp_all add: doubleLimit_def powr_neg_numeral abs_less_iff)
  then show ?thesis by (simp add: powr_neg_numeral)
qed

lemma round_quotient:
  "roundD (2 / (4503599627370497 / 2 ^ 51)) = Num (1 - 1 / 2 ^ 52)"
proof -
  have "roundD (2 / (4503599627370497 / 2 ^ 51))
        = Num (of_int 9007199254740990 * 2 powr of_int (- 1 - 52))"
    by (rule roundD_eval) (simp_all add: doubleLimit_def powr_neg_numeral abs_less_iff)
  then show ?thesis by (simp add: powr_neg_numeral)
qed

subsection \<open>The similarity of doubles\<close>

lemma squares_zero:
  "foldl (\<lambda>sum b. dadd sum (dmul b b)) (Num 0) (replicate n (Num 0)) = Num 0"
  by (induction n) (simp_all add: roundD_zero)

lemma cosineSimilarityD_zero: "cosineSimilarityD v (replicate n (Num 0)) = Num 0"
  by (simp add: cosineSimilarityD_def squares_zero roundD_zero Let_def)

lemma dot_self_D:
  "foldl (\<lambda>sum (a, b). dadd sum (dmul a b)) z (zip v v) = foldl (\<lambda>sum a. dadd sum (dmul a a)) z v"
  by (induction v arbitrary: z) simp_all

lemma unit_bounds:
  fixes u :: real
  assumes "0 \<le> u" "u \<le> 1 / 2"
  shows "(1 - 4 * u) * (1 + u) ^ 3 \<le> 1 - u"
proof -
  have "(1 - u) - (1 - 4 * u) * (1 + u) ^ 3 = 9 * u ^ 2 + 11 * u ^ 3 + 4 * u ^ 4"
    by (simp add: power2_eq_square power3_eq_cube power4_eq_xxxx algebra_simps)
  moreover have "0 \<le> 9 * u ^ 2 + 11 * u ^ 3 + 4 * u ^ 4"
    using assms(1) by simp
  ultimately show ?thesis by linarith
qed

lemma squares_ones:
  "foldl (\<lambda>sum a. dadd sum (dmul a a)) (Num 0) [Num 1, Num 1] = Num 2"
  by (simp add: round_one round_two)

lemma similarity_ones:
  "cosineSimilarityD [Num 1, Num 1] [Num 1, Num 1] = Num (1 - 1 / 2 ^ 52)"
proof -
  define m :: real where "m = 6369051672525773 / 2 ^ 52"
  define p :: real where "p = 4503599627370497 / 2 ^ 51"
  define y :: real where "y = 1 - 1 / 2 ^ 52"
  have rs: "roundD (sqrt 2) = Num m"
    unfolding m_def by (rule round_sqrt_two)
  have rp: "roundD (m * m) = Num p"
    unfolding m_def p_def by (rule round_product)
  have rq: "roundD (2 / p) = Num y"
    unfolding p_def y_def by (rule round_quotient)
  have side: "m \<noteq> 0" "p \<noteq> 0" "min 1 y = y" "max 0 y = y"
    by (simp_all add: m_def p_def y_def)
  have "cosineSimilarityD [Num 1, Num 1] [Num 1, Num 1] = Num y"
    by (simp add: cosineSimilarityD_def round_one round_two rs rp rq side Let_def)
  then show ?thesis by (simp only: y_def)
qed

text \<open>
  Outside the range of the doubles the similarity of a vector to itself is not even close
  to 1: the square of \<open>2 powr (- 600)\<close> underflows to 0, and the guard on the magnitudes
  answers 0; the square of \<open>2 powr 600\<close> overflows to infinity, and the quotient of two
  infinities is NaN, which \<^verbatim>\<open>Math.min\<close> and \<^verbatim>\<open>Math.max\<close> return unchanged.
\<close>

lemma cosineSimilarityD_tiny:
  "cosineSimilarityD [Num (2 powr (- 600))] [Num (2 powr (- 600))] = Num 0"
proof -
  define t :: double where "t = Num (2 powr (- 600))"
  have "(2::real) powr (- 600) * 2 powr (- 600) = 2 powr (- 1200)"
    by (simp flip: powr_add)
  then have "dmul t t = Num 0"
    unfolding t_def by (simp only: dmul.simps round_underflow)
  then have "cosineSimilarityD [t] [t] = Num 0"
    by (simp add: cosineSimilarityD_def Let_def roundD_zero)
  then show ?thesis by (simp only: t_def)
qed

lemma cosineSimilarityD_huge:
  "cosineSimilarityD [Num (2 powr 600)] [Num (2 powr 600)] = NaN"
proof -
  define h :: double where "h = Num (2 powr 600)"
  have "(2::real) powr 600 * 2 powr 600 = 2 powr 1200"
    by (simp flip: powr_add)
  then have "dmul h h = PosInf"
    unfolding h_def by (simp only: dmul.simps round_overflow)
  then have "cosineSimilarityD [h] [h] = NaN"
    by (simp add: cosineSimilarityD_def Let_def timesInfinity_def)
  then show ?thesis by (simp only: h_def)
qed

text \<open>
  Inside the range, four roundings separate the result from 1: the square root, the
  product of the two magnitudes, the quotient, and the sum of squares itself, which is both
  the dot product and the argument of the square root. Each changes its exact result by a
  factor between \<open>1 - 2 powr (- 53)\<close> and \<open>1 + 2 powr (- 53)\<close>.
\<close>

lemma cosineSimilarityD_self_bounds:
  assumes S: "foldl (\<lambda>sum a. dadd sum (dmul a a)) (Num 0) v = Num s"
    and lo: "2 powr (- 1020) \<le> s" and hi: "s \<le> 2 powr 1020"
  shows "\<exists>c. cosineSimilarityD v v = Num c \<and> 1 - 2 powr (- 51) \<le> c \<and> c \<le> 1"
proof -
  define u :: real where "u = 2 powr (- 53)"
  have u: "0 < u" "u \<le> 1 / 2" "4 * u = 2 powr (- 51)"
    by (simp_all add: u_def powr_neg_numeral)
  have spos: "0 < s" using lo powr_gt_zero [of 2 "- 1020"] by linarith
  have ne: "v \<noteq> []" using S spos by auto
  define r where "r = sqrt s"
  have rpos: "0 < r" and rr: "r * r = s" using spos by (simp_all add: r_def)
  have "(2 powr (- 1022))\<^sup>2 \<le> s"
  proof -
    have "(2 powr (- 1022))\<^sup>2 = (2::real) powr (- 2044)"
      by (simp add: power2_eq_square flip: powr_add)
    also have "\<dots> \<le> 2 powr (- 1020)" by simp
    finally show ?thesis using lo by simp
  qed
  then have rlo: "2 powr (- 1022) \<le> r" unfolding r_def by (rule real_le_rsqrt)
  have "s \<le> (2 powr 1023)\<^sup>2"
  proof -
    have "(2::real) powr 1020 \<le> 2 powr 2046" by simp
    also have "\<dots> = (2 powr 1023)\<^sup>2"
      by (simp add: power2_eq_square flip: powr_add)
    finally show ?thesis using hi by simp
  qed
  moreover have "0 \<le> (2::real) powr 1023" by simp
  ultimately have rhi: "r \<le> 2 powr 1023" unfolding r_def by (intro real_le_lsqrt)
  from roundD_rel [OF rlo rhi] obtain m where
    m: "roundD r = Num m" "r * (1 - u) \<le> m" "m \<le> r * (1 + u)"
    unfolding u_def by blast
  have mpos: "0 < m"
  proof -
    have "0 < r * (1 - u)" using rpos u by simp
    with m(2) show ?thesis by linarith
  qed
  have mm_lo: "s * (1 - u)\<^sup>2 \<le> m * m"
  proof -
    have "(r * (1 - u)) * (r * (1 - u)) \<le> m * m"
      using m(2) rpos u mpos by (intro mult_mono) simp_all
    moreover have "(r * (1 - u)) * (r * (1 - u)) = s * (1 - u)\<^sup>2"
      unfolding rr [symmetric] by (simp add: power2_eq_square algebra_simps)
    ultimately show ?thesis by simp
  qed
  have mm_hi: "m * m \<le> s * (1 + u)\<^sup>2"
  proof -
    have "m * m \<le> (r * (1 + u)) * (r * (1 + u))"
      using m(3) mpos rpos u by (intro mult_mono) simp_all
    moreover have "(r * (1 + u)) * (r * (1 + u)) = s * (1 + u)\<^sup>2"
      unfolding rr [symmetric] by (simp add: power2_eq_square algebra_simps)
    ultimately show ?thesis by simp
  qed
  have q1: "1 / 4 \<le> (1 - u)\<^sup>2"
  proof -
    have "(1 / 2)\<^sup>2 \<le> (1 - u)\<^sup>2" using u by (intro power_mono) simp_all
    then show ?thesis by (simp add: power2_eq_square)
  qed
  have q2: "(1 + u)\<^sup>2 \<le> 4"
  proof -
    have "(1 + u)\<^sup>2 \<le> 2\<^sup>2" using u by (intro power_mono) simp_all
    then show ?thesis by simp
  qed
  have "(2::real) powr (- 1022) = 2 powr (- 1020) * (1 / 4)" by (simp add: powr_neg_numeral)
  also have "\<dots> \<le> s * (1 - u)\<^sup>2" using lo q1 spos by (intro mult_mono) simp_all
  finally have mmlo: "2 powr (- 1022) \<le> m * m" using mm_lo by linarith
  have "s * (1 + u)\<^sup>2 \<le> 2 powr 1020 * 4" using hi q2 spos by (intro mult_mono) simp_all
  also have "\<dots> = 2 powr 1022" by simp
  also have "\<dots> \<le> 2 powr 1023" by simp
  finally have mmhi: "m * m \<le> 2 powr 1023" using mm_hi by linarith
  from roundD_rel [OF mmlo mmhi] obtain p where
    p: "roundD (m * m) = Num p" "m * m * (1 - u) \<le> p" "p \<le> m * m * (1 + u)"
    unfolding u_def by blast
  have p_lo: "s * (1 - u) ^ 3 \<le> p"
  proof -
    have "s * (1 - u)\<^sup>2 * (1 - u) \<le> m * m * (1 - u)"
      using mm_lo u by (intro mult_right_mono) simp_all
    moreover have "s * (1 - u)\<^sup>2 * (1 - u) = s * (1 - u) ^ 3"
      by (simp add: power3_eq_cube power2_eq_square)
    ultimately show ?thesis using p(2) by linarith
  qed
  have p_hi: "p \<le> s * (1 + u) ^ 3"
  proof -
    have "m * m * (1 + u) \<le> s * (1 + u)\<^sup>2 * (1 + u)"
      using mm_hi u by (intro mult_right_mono) simp_all
    moreover have "s * (1 + u)\<^sup>2 * (1 + u) = s * (1 + u) ^ 3"
      by (simp add: power3_eq_cube power2_eq_square)
    ultimately show ?thesis using p(3) by linarith
  qed
  have c1: "1 / 8 \<le> (1 - u) ^ 3"
  proof -
    have "(1 / 2) ^ 3 \<le> (1 - u) ^ 3" using u by (intro power_mono) simp_all
    then show ?thesis by (simp add: power3_eq_cube)
  qed
  have c2: "(1 + u) ^ 3 \<le> 8"
  proof -
    have "(1 + u) ^ 3 \<le> 2 ^ 3" using u by (intro power_mono) simp_all
    then show ?thesis by simp
  qed
  have ppos: "0 < p"
  proof -
    have "0 < s * (1 / 8)" using spos by simp
    also have "\<dots> \<le> s * (1 - u) ^ 3" using c1 spos by (intro mult_left_mono) simp_all
    finally show ?thesis using p_lo by linarith
  qed
  define t where "t = s / p"
  have t_lo: "1 / (1 + u) ^ 3 \<le> t"
  proof -
    have "s / (s * (1 + u) ^ 3) \<le> s / p"
      using p_hi ppos spos u by (intro divide_left_mono) (simp_all add: zero_less_mult_iff)
    then show ?thesis using spos by (simp add: t_def)
  qed
  have t_hi: "t \<le> 1 / (1 - u) ^ 3"
  proof -
    have "0 < (1 - u) ^ 3" using c1 by linarith
    then have "0 < s * (1 - u) ^ 3" using spos by simp
    then have "s / p \<le> s / (s * (1 - u) ^ 3)"
      using p_lo ppos spos by (intro divide_left_mono) (simp_all add: zero_less_mult_iff)
    then show ?thesis using spos by (simp add: t_def)
  qed
  have t8: "1 / 8 \<le> t" "t \<le> 8"
  proof -
    have "1 / 8 \<le> 1 / (1 + u) ^ 3" using c2 u by (intro divide_left_mono) simp_all
    with t_lo show "1 / 8 \<le> t" by linarith
    have "1 / (1 - u) ^ 3 \<le> 1 / (1 / 8)" using c1 u by (intro divide_left_mono) simp_all
    with t_hi show "t \<le> 8" by simp
  qed
  have tlo: "2 powr (- 1022) \<le> t"
  proof -
    have "(2::real) powr (- 1022) \<le> 2 powr (- 3)" by simp
    also have "\<dots> = 1 / 8" by (simp add: powr_neg_numeral)
    finally show ?thesis using t8 by linarith
  qed
  have thi: "t \<le> 2 powr 1023"
  proof -
    have "(8::real) = 2 powr 3" by simp
    also have "\<dots> \<le> 2 powr 1023" by (simp only: powr_le_cancel_iff)
    finally show ?thesis using t8 by linarith
  qed
  from roundD_rel [OF tlo thi] obtain y where
    y: "roundD t = Num y" "t * (1 - u) \<le> y" "y \<le> t * (1 + u)"
    unfolding u_def by blast
  have "1 - 4 * u \<le> (1 - u) / (1 + u) ^ 3"
    using unit_bounds [of u] u by (simp add: pos_le_divide_eq)
  also have "\<dots> = 1 / (1 + u) ^ 3 * (1 - u)" by simp
  also have "\<dots> \<le> t * (1 - u)" using t_lo u by (intro mult_right_mono) simp_all
  finally have ylo: "1 - 4 * u \<le> y" using y(2) by linarith
  have rs: "roundD (sqrt s) = Num m" using m(1) by (simp only: r_def)
  have rq: "roundD (s / p) = Num y" using y(1) by (simp only: t_def)
  have "cosineSimilarityD v v = Num (max 0 (min 1 y))"
    using ne mpos spos ppos
    by (simp add: cosineSimilarityD_def dot_self_D S rs p(1) rq Let_def)
  moreover have "1 - 2 powr (- 51) \<le> max 0 (min 1 y)" "max 0 (min 1 y) \<le> 1"
    using ylo u by (simp_all add: max_def min_def) 
  ultimately show ?thesis by blast
qed

text \<open>
  Claim C8 as stated fails in the arithmetic of the code. For the vector \<open>[1, 1]\<close> the sum
  of squares is 2, either magnitude is the double nearest to the square root of 2, their
  product rounds to a double above 2, and the quotient rounds to
  \<open>1 - 1 / 2 ^ 52\<close>, printed \<^verbatim>\<open>0.9999999999999998\<close>: the vector is not zero and its similarity
  to itself is not 1.
\<close>

theorem cosineSimilarityD_ones:
  "cosineSimilarityD [Num 1, Num 1] [Num 1, Num 1] = Num (1 - 1 / 2 ^ 52)
   \<and> cosineSimilarityD [Num 1, Num 1] [Num 1, Num 1] \<noteq> Num 1"
  by (simp add: similarity_ones)

text \<open>
  Claim C8, amended. In the arithmetic of the code, the similarity of any vector to a zero
  vector of any length is 0. The similarity of a vector to itself is a number between
  \<open>1 - 2 powr (- 51)\<close> and 1 whenever the sum of the squares of its components, as the
  code computes it, is a finite number between \<open>2 powr (- 1020)\<close> and \<open>2 powr 1020\<close>.
\<close>

theorem cosineSimilarityD_zero_and_self:
  "cosineSimilarityD v (replicate n (Num 0)) = Num 0
   \<and> (foldl (\<lambda>sum a. dadd sum (dmul a a)) (Num 0) w = Num s
        \<and> 2 powr (- 1020) \<le> s \<and> s \<le> 2 powr 1020
      \<longrightarrow> (\<exists>c. cosineSimilarityD w w = Num c \<and> 1 - 2 powr (- 51) \<le> c \<and> c \<le> 1))"
proof (intro conjI impI)
  show "cosineSimilarityD v (replicate n (Num 0)) = Num 0"
    by (rule cosineSimilarityD_zero)
next
  assume a: "foldl (\<lambda>sum a. dadd sum (dmul a a)) (Num 0) w = Num s
             \<and> 2 powr (- 1020) \<le> s \<and> s \<le> 2 powr 1020"
  from a have squares: "foldl (\<lambda>sum a. dadd sum (dmul a a)) (Num 0) w = Num s" ..
  from a have lower: "2 powr (- 1020) \<le> s" by (rule conjE) (rule conjunct1)
  from a have upper: "s \<le> 2 powr 1020" by (rule conjE) (rule conjunct2)
  from squares lower upper
  show "\<exists>c. cosineSimilarityD w w = Num c \<and> 1 - 2 powr (- 51) \<le> c \<and> c \<le> 1"
    by (rule cosineSimilarityD_self_bounds)
qed

theorem cosineSimilarityD_zero_and_self_witness:
  "cosineSimilarityD [Num 3, Num 4] (replicate 2 (Num 0)) = Num 0
   \<and> foldl (\<lambda>sum a. dadd sum (dmul a a)) (Num 0) [Num 1, Num 1] = Num 2
   \<and> (\<exists>c. cosineSimilarityD [Num 1, Num 1] [Num 1, Num 1] = Num c
            \<and> 1 - 2 powr (- 51) \<le> c \<and> c \<le> 1)"
proof -
  have "(2::real) powr (- 1020) \<le> 2 powr 1"
    by (simp only: powr_le_cancel_iff)
  then have range: "2 powr (- 1020) \<le> (2::real)" "(2::real) \<le> 2 powr 1020"
    by simp_all
  note inst = cosineSimilarityD_zero_and_self [of "[Num 3, Num 4]" 2 "[Num 1, Num 1]" 2]
  from inst squares_ones range show ?thesis
    by blast
qed

section \<open>Searching\<close>

lemma trim_blank:
  assumes "list_all isSpace q"
  shows "trim q = []"
proof -
  have h: "dropWhile isSpace q = []"
    using assms by (induction q) simp_all
  show ?thesis by (simp only: trim_def h rev.simps dropWhile.simps)
qed

text \<open>
  Claim C9. A query that is empty or made of whitespace only returns the empty list, for
  every state of the services, and leaves the services as they are. The search has no
  error result: the only exception it can meet is caught inside.
\<close>

theorem searchDocuments_blank_query:
  assumes "list_all isSpace query"
  shows "searchDocuments query s = ([], s)"
proof -
  have "trim query = []"
    using assms by (rule trim_blank)
  then show ?thesis
    by (simp add: searchDocuments_def)
qed

theorem searchDocuments_blank_query_witness:
  "list_all isSpace [CHR '' '', CHR 0x09]
   \<and> searchDocuments [CHR '' '', CHR 0x09] (run [Upload zebraFile] initialServices)
       = ([], run [Upload zebraFile] initialServices)"
proof -
  have h: "list_all isSpace [CHR '' '', CHR 0x09]"
    by (simp add: isSpace_def charCode_def)
  from h searchDocuments_blank_query [OF h] show ?thesis by simp
qed

lemma scoreDocument_document: "scoreDocument qe ql d = Some r \<Longrightarrow> document r = d"
  by (auto simp: scoreDocument_def Let_def split: if_splits prod.splits)

text \<open>
  Claim C7. The result list has at most 10 entries, its scores descend, and for every
  score the documents that have it come in the order in which the store lists them, which
  is the order of their insertion.
\<close>

theorem searchDocuments_ranked:
  "length (fst (searchDocuments query s)) \<le> 10
   \<and> sorted_wrt (\<lambda>a b. score a \<ge> score b) (fst (searchDocuments query s))
   \<and> subseq (map document (filter (\<lambda>r. score r = x) (fst (searchDocuments query s))))
        (getAllDocuments s)"
proof (cases "trim query = []")
  case True
  then show ?thesis by (simp add: searchDocuments_def)
next
  case False
  obtain r e1 where ge: "getEmbedding query None (simpleEmbeddingService s) = (r, e1)"
    by (cases "getEmbedding query None (simpleEmbeddingService s)")
  define qe where "qe = (case r of Inl e \<Rightarrow> None | Inr v \<Rightarrow> Some v)"
  define results where
    "results = List.map_filter (scoreDocument qe (toLowerCase query)) (map snd (simpleDocumentService s))"
  define sorted where "sorted = arraySort (\<lambda>a b. score b - score a) results"
  have res: "fst (searchDocuments query s) = take 10 sorted"
    using False ge by (simp add: searchDocuments_def Let_def qe_def results_def sorted_def)
  have 1: "length (take 10 sorted) \<le> 10" by simp
  have "sorted_wrt (\<lambda>a b. score a \<ge> score b) sorted"
    unfolding sorted_def by (rule sorted_arraySort_desc)
  then have 2: "sorted_wrt (\<lambda>a b. score a \<ge> score b) (take 10 sorted)"
    by (rule sorted_wrt_take)
  have "subseq (filter (\<lambda>r. score r = x) (take 10 sorted)) (filter (\<lambda>r. score r = x) sorted)"
    by (rule subseq_filter_take)
  also have "filter (\<lambda>r. score r = x) sorted = filter (\<lambda>r. score r = x) results"
    unfolding sorted_def by (rule stable_arraySort_desc)
  also have "subseq (filter (\<lambda>r. score r = x) results) results"
    by simp
  finally have "subseq (map document (filter (\<lambda>r. score r = x) (take 10 sorted)))
                  (map document results)"
    by (rule subseq_map)
  moreover have "subseq (map document results) (map snd (simpleDocumentService s))"
    unfolding results_def by (rule subseq_map_filter) (rule scoreDocument_document)
  ultimately have 3: "subseq (map document (filter (\<lambda>r. score r = x) (take 10 sorted)))
                  (getAllDocuments s)"
    unfolding getAllDocuments_def by (rule subseq_order.order_trans)
  from 1 2 3 show ?thesis by (simp only: res)
qed

lemma foldl_sentences:
  "foldl (\<lambda>(ks, ms) sentence.
            if P sentence then (ks + 0.2, ms @ [mk sentence]) else (ks, ms)) (k, ms0) sens
   = (k + 0.2 * real (length (filter P sens)), ms0 @ map mk (filter P sens))"
  for k :: real
  by (induction sens arbitrary: k ms0) (simp_all add: algebra_simps)

lemma scoreDocument_closed:
  "scoreDocument qe ql d =
     (let sem = semanticScoreOf qe d;
          ks = keywordScoreOf ql d;
          eff = (if sem > 0.18 then sem else 0);
          secs = take 3 (map sectionOf (matchingSentences ql d))
      in if eff > 0 \<and> ks > 0
         then (if eff * 0.7 + ks * 0.3 > 0.1
               then Some \<lparr>document = d, score = eff * 0.7 + ks * 0.3, searchType = Hybrid,
                           matchedSections = secs\<rparr>
               else None)
         else if eff > 0
         then (if eff > 0.15
               then Some \<lparr>document = d, score = eff, searchType = Semantic, matchedSections = secs\<rparr>
               else None)
         else if min ks 1 > 0.1
         then Some \<lparr>document = d, score = min ks 1, searchType = Keyword, matchedSections = secs\<rparr>
         else None)"
  unfolding scoreDocument_def semanticScoreOf_def keywordScoreOf_def matchingSentences_def
    foldl_sentences
  by (simp add: Let_def sectionOf_def [abs_def])

lemma scoreDocument_sections:
  "scoreDocument qe ql d = Some r \<Longrightarrow>
     matchedSections r = take 3 (map sectionOf (matchingSentences ql d))"
  by (auto simp: scoreDocument_closed Let_def split: if_splits)

lemma in_set_map_filterD: "y \<in> set (List.map_filter f xs) \<Longrightarrow> \<exists>x\<in>set xs. f x = Some y"
  by (induction xs) (auto split: option.splits)

lemma searchDocuments_result:
  assumes "r \<in> set (fst (searchDocuments query s))"
  shows "\<exists>qe d. d \<in> set (getAllDocuments s) \<and> scoreDocument qe (toLowerCase query) d = Some r"
proof (cases "trim query = []")
  case True
  with assms show ?thesis by (simp add: searchDocuments_def)
next
  case False
  obtain res e1 where ge: "getEmbedding query None (simpleEmbeddingService s) = (res, e1)"
    by (cases "getEmbedding query None (simpleEmbeddingService s)")
  define qe where "qe = (case res of Inl e \<Rightarrow> None | Inr v \<Rightarrow> Some v)"
  have "r \<in> set (take 10 (arraySort (\<lambda>a b. score b - score a)
          (List.map_filter (scoreDocument qe (toLowerCase query)) (map snd (simpleDocumentService s)))))"
    using assms False ge by (simp add: searchDocuments_def Let_def qe_def)
  then have "r \<in> set (List.map_filter (scoreDocument qe (toLowerCase query))
                        (map snd (simpleDocumentService s)))"
    by (auto dest: in_set_takeD simp: set_arraySort_desc)
  then obtain d where "d \<in> set (map snd (simpleDocumentService s))"
      and "scoreDocument qe (toLowerCase query) d = Some r"
    by (blast dest: in_set_map_filterD)
  then show ?thesis
    unfolding getAllDocuments_def by blast
qed

text \<open>The scores of the semantic and keyword branches are in \<open>(0, 1]\<close>: the cosine is
  clamped and the keyword branch takes the minimum with 1. The hybrid branch has no cap.\<close>

lemma score_bounds:
  assumes "scoreDocument qe ql d = Some r"
  shows "0 < score r \<and> (searchType r \<noteq> Hybrid \<longrightarrow> score r \<le> 1)"
proof -
  have "semanticScoreOf qe d \<le> 1"
    using cosineSimilarity_range by (simp add: semanticScoreOf_def split: option.splits)
  with assms show ?thesis
    by (auto simp: scoreDocument_closed Let_def split: if_splits)
qed

lemma searchDocuments_score_bounds:
  assumes "r \<in> set (fst (searchDocuments query s))"
  shows "0 < score r \<and> (searchType r \<noteq> Hybrid \<longrightarrow> score r \<le> 1)"
proof -
  from assms obtain qe d where "scoreDocument qe (toLowerCase query) d = Some r"
    using searchDocuments_result by blast
  then show ?thesis by (rule score_bounds)
qed

text \<open>
  Claim C10. Every result carries at most 3 matched sections; in each the context equals
  the text; and the list is the first three, in the order of the document's text, of the
  sentences whose lower-cased form contains the lower-cased query, each trimmed. The
  sentences are the non-blank pieces of the extracted text between runs of \<open>.\<close>, \<open>!\<close> and \<open>?\<close>.
\<close>

theorem matchedSections_shape:
  assumes "r \<in> set (fst (searchDocuments query s))"
  shows "length (matchedSections r) \<le> 3
   \<and> list_all (\<lambda>m. context' m = text' m) (matchedSections r)
   \<and> matchedSections r
       = take 3 (map (\<lambda>sen. \<lparr>text' = trim sen, context' = trim sen\<rparr>)
                  (matchingSentences (toLowerCase query) (document r)))"
proof -
  from assms obtain qe d where d: "scoreDocument qe (toLowerCase query) d = Some r"
    using searchDocuments_result by blast
  then have doc: "document r = d" by (rule scoreDocument_document)
  have eq: "matchedSections r = take 3 (map sectionOf (matchingSentences (toLowerCase query) (document r)))"
    using scoreDocument_sections [OF d] doc by simp
  have "list_all (\<lambda>m. context' m = text' m) (take 3 (map sectionOf xs))" for xs
    by (auto simp: list_all_iff sectionOf_def dest!: in_set_takeD)
  with eq show ?thesis by (simp add: sectionOf_def [abs_def])
qed

lemma getEmbedding_vector:
  "fst (getEmbedding t i s) = fst (getEmbedding t j s')"
  by (simp add: getEmbedding_def Let_def split: sum.splits)

lemma searchDocuments_store:
  "simpleDocumentService (snd (searchDocuments query s)) = simpleDocumentService s"
  by (simp add: searchDocuments_def Let_def split: prod.splits)

lemma searchDocuments_depends_on_store:
  assumes "simpleDocumentService s' = simpleDocumentService s"
  shows "fst (searchDocuments query s') = fst (searchDocuments query s)"
proof -
  have "fst (getEmbedding query None (simpleEmbeddingService s'))
        = fst (getEmbedding query None (simpleEmbeddingService s))"
    by (rule getEmbedding_vector)
  then show ?thesis
    using assms by (auto simp: searchDocuments_def Let_def split: prod.splits)
qed

text \<open>
  Claim C6. A second run of the same search, on the services as the first run left them,
  returns the same list: the same documents in the same order with the same scores, types
  and sections. The first run changes word statistics of the embedding service, which the
  results do not depend on.
\<close>

theorem searchDocuments_repeatable:
  "fst (searchDocuments query (snd (searchDocuments query s))) = fst (searchDocuments query s)"
proof -
  have "simpleDocumentService (snd (searchDocuments query s)) = simpleDocumentService s"
    by (rule searchDocuments_store)
  then show ?thesis
    by (rule searchDocuments_depends_on_store)
qed

section \<open>The embedding vector\<close>

lemma sum_list_update_add:
  "i < length xs \<Longrightarrow> sum_list (xs[i := xs ! i + c]) = sum_list xs + c" for c :: real
proof (induction xs arbitrary: i)
  case Nil
  then show ?case by simp
next
  case (Cons x xs)
  then show ?case by (cases i) simp_all
qed

lemma fold_addWord:
  "length vec = 100 \<Longrightarrow>
     length (fold (addWord tf) us vec) = 100
     \<and> sum_list (fold (addWord tf) us vec)
         = sum_list vec + sum_list (map (\<lambda>w. orZero (map_of tf w) * semanticWeight w) us)"
proof (induction us arbitrary: vec)
  case Nil
  then show ?case by simp
next
  case (Cons u us)
  have len: "length (addWord tf u vec) = 100"
    using Cons.prems by (simp add: addWord_def Let_def)
  have "sum_list (addWord tf u vec) = sum_list vec + orZero (map_of tf u) * semanticWeight u"
    using Cons.prems by (simp add: addWord_def Let_def sum_list_update_add)
  with Cons.IH [OF len] show ?case by simp
qed

lemma sum_list_map_pos:
  "xs \<noteq> [] \<Longrightarrow> \<forall>x\<in>set xs. 0 < f x \<Longrightarrow> 0 < sum_list (map f xs)" for f :: "'a \<Rightarrow> real"
proof (induction xs)
  case Nil
  then show ?case by simp
next
  case (Cons x xs)
  show ?case
  proof (cases "xs = []")
    case True
    with Cons.prems show ?thesis by simp
  next
    case False
    with Cons have "0 < sum_list (map f xs)" by simp
    moreover have "0 < f x" using Cons.prems by simp
    ultimately show ?thesis by simp
  qed
qed

lemma sum_list_nonzero: "sum_list xs \<noteq> 0 \<Longrightarrow> \<exists>x\<in>set xs. x \<noteq> 0" for xs :: "real list"
  by (induction xs) auto

lemma semanticWeight_pos: "0 < semanticWeight w"
  by (simp add: semanticWeight_def Let_def)

lemma counts_pos:
  assumes "\<forall>w v. map_of acc w = Some v \<longrightarrow> 0 < v"
  shows "(\<forall>w v. map_of (fold (\<lambda>word wf. AList.update word (orZero (map_of wf word) + 1) wf) ws acc) w = Some v
            \<longrightarrow> 0 < v)
         \<and> (\<forall>w\<in>set ws. map_of (fold (\<lambda>word wf. AList.update word (orZero (map_of wf word) + 1) wf) ws acc) w
              \<noteq> None)"
  using assms
proof (induction ws arbitrary: acc)
  case Nil
  then show ?case by simp
next
  case (Cons a ws)
  let ?acc = "AList.update a (orZero (map_of acc a) + 1) acc"
  have "0 \<le> orZero (map_of acc a)"
    using Cons.prems by (cases "map_of acc a") (auto simp: orZero_def intro: less_imp_le)
  then have pos: "\<forall>w v. map_of ?acc w = Some v \<longrightarrow> 0 < v"
    using Cons.prems by (auto simp: update_conv')
  have key: "map_of ?acc a \<noteq> None" by (simp add: update_conv')
  have keep: "map_of (fold (\<lambda>word wf. AList.update word (orZero (map_of wf word) + 1) wf) ws acc') w \<noteq> None"
    if "map_of acc' w \<noteq> None" for acc' w
    using that by (induction ws arbitrary: acc') (simp_all add: update_conv')
  from Cons.IH [OF pos] keep [OF key] show ?case by simp
qed

lemma calculateTFIDF_pos:
  assumes "w \<in> set ws"
  shows "0 < orZero (map_of (calculateTFIDF ws) w)"
proof -
  let ?cnt = "fold (\<lambda>word wf. AList.update word (orZero (map_of wf word) + 1) wf) ws []"
  have "(\<forall>w v. map_of ?cnt w = Some v \<longrightarrow> 0 < v) \<and> (\<forall>w\<in>set ws. map_of ?cnt w \<noteq> None)"
    by (rule counts_pos) simp
  with assms obtain v where v: "map_of ?cnt w = Some v" "0 < v" by auto
  have len: "0 < real (length ws)" using assms by (cases ws) auto
  have "map_of (calculateTFIDF ws) w = Some (v / real (length ws))"
    using v by (simp add: calculateTFIDF_def Let_def map_of_map)
  with v len show ?thesis by (simp add: orZero_def)
qed

lemma set_arrayFromSet: "set (arrayFromSet xs) = set xs"
  by (simp add: arrayFromSet_def)

lemma buildVector_nonzero:
  assumes "ws \<noteq> []"
  shows "\<exists>x\<in>set (buildVector (calculateTFIDF ws) ws). x \<noteq> 0"
proof -
  let ?tf = "calculateTFIDF ws"
  let ?vec = "fold (addWord ?tf) (arrayFromSet ws) (replicate 100 0)"
  let ?c = "\<lambda>w. orZero (map_of ?tf w) * semanticWeight w"
  have "sum_list ?vec = sum_list (replicate 100 (0::real)) + sum_list (map ?c (arrayFromSet ws))"
    using fold_addWord [of "replicate 100 0" ?tf "arrayFromSet ws"] by simp
  then have sum: "sum_list ?vec = sum_list (map ?c (arrayFromSet ws))"
    by (simp add: sum_list_replicate)
  have "\<forall>w\<in>set (arrayFromSet ws). 0 < ?c w"
    by (simp add: set_arrayFromSet calculateTFIDF_pos semanticWeight_pos)
  moreover have "arrayFromSet ws \<noteq> []"
    using assms set_arrayFromSet [of ws] by (metis set_empty)
  ultimately have "0 < sum_list (map ?c (arrayFromSet ws))"
    by (intro sum_list_map_pos) auto
  with sum have "sum_list ?vec \<noteq> 0" by simp
  then have ex: "\<exists>x\<in>set ?vec. x \<noteq> 0"
    by (rule sum_list_nonzero)
  then have "0 < sum_list (map (\<lambda>a. a * a) ?vec)" by (rule squares_pos)
  then have mag: "0 < sqrt (foldl (\<lambda>sum val. sum + val * val) 0 ?vec)"
    by (simp add: foldl_squares)
  from ex obtain x where "x \<in> set ?vec" "x \<noteq> 0" by blast
  then have "x / sqrt (foldl (\<lambda>sum val. sum + val * val) 0 ?vec)
               \<in> set (buildVector ?tf ws)
             \<and> x / sqrt (foldl (\<lambda>sum val. sum + val * val) 0 ?vec) \<noteq> 0"
    using mag by (simp add: buildVector_def Let_def)
  then show ?thesis by blast
qed

section \<open>A worked example: one document about zebras\<close>

lemma ext_txt: "getFileExtension ''zebra.txt'' = Some Txt"
  by code_simp

lemma terms_zebra3: "expandSemanticTerms (preprocessText ''zebra. zebra. zebra.'') = Inr [''zebra'']"
  by code_simp

lemma terms_zebra: "expandSemanticTerms (preprocessText ''zebra'') = Inr [''zebra'']"
  by code_simp

lemma keywords_zebra3: "extractKeywords ''zebra. zebra. zebra.'' = [''zebra'']"
  by (simp add: extractKeywords_def toLowerCase_def toLowerChar_def charCode_def isSpace_def
      isWordChar_def isStopWord_def objectEntries_def isArrayIndex_def isDigit_def arraySort_def
      countWord_def objectPrototypeKeys_def byCountDescending_def)

text \<open>
  A word that names an inherited function is not counted: it keeps the place of its first
  occurrence, before every word of the text that follows it. \<open>__proto__\<close> is never a
  keyword.
\<close>

lemma keywords_constructor:
  "extractKeywords ''constructor zebra zebra'' = [''constructor'', ''zebra'']"
  by (simp add: extractKeywords_def toLowerCase_def toLowerChar_def charCode_def isSpace_def
      isWordChar_def isStopWord_def objectEntries_def isArrayIndex_def isDigit_def arraySort_def
      countWord_def objectPrototypeKeys_def byCountDescending_def)

lemma keywords_proto: "extractKeywords ''__proto__ zebra'' = [''zebra'']"
  by (simp add: extractKeywords_def toLowerCase_def toLowerChar_def charCode_def isSpace_def
      isWordChar_def isStopWord_def objectEntries_def isArrayIndex_def isDigit_def arraySort_def
      countWord_def objectPrototypeKeys_def byCountDescending_def)

lemma tf_zebra: "calculateTFIDF [''zebra''] = [(''zebra'', 1)]"
  by (simp add: calculateTFIDF_def orZero_def)

lemma keys_zebra: "objectKeys [(''zebra'', x)] = [''zebra'']"
  by (simp add: objectKeys_def objectEntries_def isArrayIndex_def isDigit_def charCode_def)

lemma embed_zebra3:
  "getEmbedding ''zebra. zebra. zebra.'' (Some ''doc1'') (simpleEmbeddingService initialServices)
   = (Inr zebraVector, zebraStatistics)"
  by (simp add: zebraVector_def zebraStatistics_def getEmbedding_def terms_zebra3 tf_zebra keys_zebra initialServices_def orZero_def Let_def)

lemma upload_zebra:
  "run [Upload zebraFile] initialServices
   = \<lparr>simpleDocumentService = [(''doc1'', zebraDocument)],
      simpleEmbeddingService = zebraStatistics\<rparr>"
proof -
  have "updateVocabulary zebraStatistics = zebraStatistics"
    by (simp add: updateVocabulary_def zebraStatistics_def)
  moreover have "simpleDocumentService initialServices = []"
    by (simp add: initialServices_def)
  ultimately show ?thesis
    by (simp add: run_def uploadDocument_def zebraFile_def ext_txt embed_zebra3 keywords_zebra3
        zebraDocument_def Let_def)
qed

lemma embed_query_zebra:
  "getEmbedding ''zebra'' None e
   = (Inr zebraVector,
      e\<lparr>globalWordFreq := AList.update ''zebra'' (orZero (map_of (globalWordFreq e) ''zebra'') + 1)
                                (globalWordFreq e)\<rparr>)"
  by (simp add: getEmbedding_def terms_zebra tf_zebra keys_zebra zebraVector_def Let_def)

lemma zebraVector_self: "cosineSimilarity zebraVector zebraVector = 1"
  unfolding zebraVector_def by (rule cosineSimilarity_self) (rule buildVector_nonzero, simp)

lemma zebra_sentences:
  "matchingSentences ''zebra'' zebraDocument = [''zebra'', '' zebra'', '' zebra'']"
  by (simp add: matchingSentences_def zebraDocument_def isSentenceEnd_def trim_def isSpace_def
      charCode_def toLowerCase_def toLowerChar_def)

lemma zebra_keywordScore: "keywordScoreOf ''zebra'' zebraDocument = 21 / 20"
  by (simp add: keywordScoreOf_def zebra_sentences)
     (simp add: zebraDocument_def toLowerCase_def toLowerChar_def charCode_def)

lemma zebra_score:
  "scoreDocument (Some zebraVector) ''zebra'' zebraDocument
   = Some zebraResult"
proof -
  have "semanticScoreOf (Some zebraVector) zebraDocument = 1"
    by (simp add: semanticScoreOf_def zebraDocument_def zebraVector_self)
  then show ?thesis
    by (simp add: scoreDocument_closed zebra_keywordScore zebra_sentences Let_def zebraResult_def)
qed

lemma lower_zebra: "toLowerCase ''zebra'' = ''zebra''" "trim ''zebra'' = ''zebra''"
  by (simp_all add: toLowerCase_def toLowerChar_def charCode_def trim_def isSpace_def)

lemma search_zebra:
  "fst (searchDocuments ''zebra'' (run [Upload zebraFile] initialServices))
   = [zebraResult]"
  by (simp add: searchDocuments_def upload_zebra embed_query_zebra lower_zebra zebra_score
      arraySort_def Let_def)

text \<open>
  Claim C1 fails on the code. The store holds one document, uploaded as \<open>zebra.txt\<close> with
  the text \<open>zebra. zebra. zebra.\<close>; the query is \<open>zebra\<close>. The semantic score is 1, the
  keyword score is 0.3 + 0.15 + 3 * 0.2 = 1.05, and the hybrid branch returns
  0.7 * 1 + 0.3 * 1.05 = 1.015 without a cap.
\<close>

theorem hybrid_score_exceeds_one:
  "map score (fst (searchDocuments ''zebra'' (run [Upload zebraFile] initialServices))) = [203 / 200]
   \<and> map searchType (fst (searchDocuments ''zebra'' (run [Upload zebraFile] initialServices)))
       = [Hybrid]"
proof -
  have "fst (searchDocuments ''zebra'' (run [Upload zebraFile] initialServices)) = [zebraResult]"
    by (rule search_zebra)
  moreover have "score zebraResult = 203 / 200" and "searchType zebraResult = Hybrid"
    by (simp_all add: zebraResult_def)
  ultimately show ?thesis by simp
qed

theorem hybrid_score_exceeds_one_witness:
  "list_ex (\<lambda>r. 1 < score r) (fst (searchDocuments ''zebra'' (run [Upload zebraFile] initialServices)))"
proof -
  have "list_ex (\<lambda>x. 1 < x)
          (map score (fst (searchDocuments ''zebra'' (run [Upload zebraFile] initialServices))))"
    using hybrid_score_exceeds_one by simp
  then show ?thesis by (simp add: list_ex_iff)
qed

theorem searchDocuments_repeatable_witness:
  "fst (searchDocuments ''zebra''
          (snd (searchDocuments ''zebra'' (run [Upload zebraFile] initialServices))))
   = fst (searchDocuments ''zebra'' (run [Upload zebraFile] initialServices))"
  by (rule searchDocuments_repeatable)

section \<open>What a search changes\<close>

lemma getEmbedding_None_frame:
  "documents (snd (getEmbedding t None e)) = documents e
   \<and> totalDocuments (snd (getEmbedding t None e)) = totalDocuments e
   \<and> vocabulary (snd (getEmbedding t None e)) = vocabulary e"
  by (simp add: getEmbedding_def Let_def split: sum.splits)

lemma searchDocuments_frame:
  "simpleDocumentService (snd (searchDocuments query s)) = simpleDocumentService s
   \<and> documents (simpleEmbeddingService (snd (searchDocuments query s)))
       = documents (simpleEmbeddingService s)
   \<and> totalDocuments (simpleEmbeddingService (snd (searchDocuments query s)))
       = totalDocuments (simpleEmbeddingService s)
   \<and> vocabulary (simpleEmbeddingService (snd (searchDocuments query s)))
       = vocabulary (simpleEmbeddingService s)"
proof (cases "getEmbedding query None (simpleEmbeddingService s)")
  case (Pair r e1)
  with getEmbedding_None_frame [of query "simpleEmbeddingService s"] show ?thesis
    by (simp add: searchDocuments_def Let_def)
qed

text \<open>
  Claim C4 fails on the code. A search leaves the document store, the stored document
  vectors, \<open>totalDocuments\<close> and the vocabulary as they are (lemma \<open>searchDocuments_frame\<close>),
  but \<^const>\<open>getEmbedding\<close> increments the global word frequency of every expanded query term
  before it looks at the document identifier: on the initial services the query \<open>zebra\<close>
  leaves the table \<open>[(zebra, 1)]\<close>.
\<close>

theorem search_changes_globalWordFreq:
  "globalWordFreq (simpleEmbeddingService initialServices) = []
   \<and> globalWordFreq (simpleEmbeddingService (snd (searchDocuments ''zebra'' initialServices)))
       = [(''zebra'', 1)]"
  by (simp add: searchDocuments_def lower_zebra embed_query_zebra Let_def)
     (simp add: initialServices_def orZero_def)

theorem search_changes_globalWordFreq_witness:
  "simpleEmbeddingService (snd (searchDocuments ''zebra'' initialServices))
   \<noteq> simpleEmbeddingService initialServices"
proof
  assume "simpleEmbeddingService (snd (searchDocuments ''zebra'' initialServices))
          = simpleEmbeddingService initialServices"
  then have "globalWordFreq (simpleEmbeddingService (snd (searchDocuments ''zebra'' initialServices)))
          = globalWordFreq (simpleEmbeddingService initialServices)"
    by (rule arg_cong)
  moreover have "globalWordFreq (simpleEmbeddingService initialServices) = []"
    and "globalWordFreq (simpleEmbeddingService (snd (searchDocuments ''zebra'' initialServices)))
         = [(''zebra'', 1)]"
    using search_changes_globalWordFreq by blast+
  ultimately show False by (simp only: list.distinct)
qed

section \<open>The counter of documents\<close>

text \<open>
  Claim C5 as stated fails: after the upload of one document and its deletion the store is
  empty and \<open>totalDocuments\<close> is 1. Nothing in the embedding service removes a document
  vector.
\<close>

theorem totalDocuments_after_delete:
  "totalDocuments (simpleEmbeddingService (run [Upload zebraFile, Delete ''doc1''] initialServices)) = 1
   \<and> length (getAllDocuments (run [Upload zebraFile, Delete ''doc1''] initialServices)) = 0"
proof -
  have "run [Upload zebraFile, Delete ''doc1''] initialServices
        = snd (deleteDocument ''doc1'' (run [Upload zebraFile] initialServices))"
    by (simp add: run_def)
  then show ?thesis
    by (simp add: upload_zebra deleteDocument_def getAllDocuments_def zebraStatistics_def)
qed

lemma map_fst_update:
  "map fst (AList.update k v al)
   = (if k \<in> set (map fst al) then map fst al else map fst al @ [k])"
  by (induction al) auto

lemma calculateIDF_frame:
  "documents (calculateIDF e) = documents e \<and> totalDocuments (calculateIDF e) = totalDocuments e"
  by (simp add: calculateIDF_def Let_def)

lemma updateVocabulary_frame:
  "documents (updateVocabulary e) = documents e
   \<and> totalDocuments (updateVocabulary e) = totalDocuments e"
  by (simp add: updateVocabulary_def calculateIDF_frame)

lemma getEmbedding_indexable:
  assumes "indexable file"
  shows "map fst (documents (snd (getEmbedding (extracted file) (Some (generatedId file)) e)))
         = (if generatedId file \<in> set (map fst (documents e)) then map fst (documents e)
            else map fst (documents e) @ [generatedId file])
   \<and> totalDocuments (snd (getEmbedding (extracted file) (Some (generatedId file)) e))
       = length (documents (snd (getEmbedding (extracted file) (Some (generatedId file)) e)))"
  using assms
  by (auto simp: indexable_def getEmbedding_def Let_def map_fst_update split: sum.splits)

lemma counted_perform:
  assumes "counted s" "insertOnly op"
  shows "counted (perform op s)"
proof (cases op)
  case (Upload u)
  with assms have ix: "indexable u" by (simp add: insertOnly_def)
  show ?thesis
  proof (cases "getFileExtension (fileName u)")
    case None
    with Upload assms show ?thesis by (simp add: uploadDocument_def)
  next
    case (Some ext)
    obtain r e1 where ge: "getEmbedding (extracted u) (Some (generatedId u))
                            (simpleEmbeddingService s) = (r, e1)"
      by (cases "getEmbedding (extracted u) (Some (generatedId u)) (simpleEmbeddingService s)")
    from getEmbedding_indexable [OF ix, of "simpleEmbeddingService s"] ge
    have keys: "map fst (documents e1)
                = (if generatedId u \<in> set (map fst (documents (simpleEmbeddingService s)))
                   then map fst (documents (simpleEmbeddingService s))
                   else map fst (documents (simpleEmbeddingService s)) @ [generatedId u])"
      and total: "totalDocuments e1 = length (documents e1)"
      by simp_all
    from Upload Some ge keys total assms(1) show ?thesis
      by (simp add: uploadDocument_def Let_def counted_def updateVocabulary_frame map_fst_update)
  qed
next
  case (Delete i)
  with assms show ?thesis by (simp add: insertOnly_def)
next
  case (Search query)
  with assms(1) searchDocuments_frame [of query s] show ?thesis
    by (simp add: counted_def)
qed

lemma counted_fold:
  "counted s \<Longrightarrow> list_all insertOnly ops \<Longrightarrow> counted (fold perform ops s)"
  by (induction ops arbitrary: s) (simp_all add: counted_perform)

lemma counted_initial: "counted initialServices"
  by (simp add: counted_def initialServices_def)

lemma delete_filter: "AList.delete i al = filter (\<lambda>(k, d). k \<noteq> i) al"
  by (induction al) auto

text \<open>
  Claim C5, amended. After every sequence of uploads and searches in which every upload
  has a non-empty identifier and a text that yields at least one term without an exception,
  \<open>totalDocuments\<close> is the number of documents in the store. A deletion, in any state,
  removes from the store the document stored under the identifier, keeps every other
  document in its place, and leaves \<open>totalDocuments\<close> as it is.
\<close>

theorem totalDocuments_insert_only:
  "(list_all insertOnly ops \<longrightarrow>
      totalDocuments (simpleEmbeddingService (run ops initialServices))
      = length (getAllDocuments (run ops initialServices)))
   \<and> simpleDocumentService (snd (deleteDocument i s))
       = filter (\<lambda>(k, d). k \<noteq> i) (simpleDocumentService s)
   \<and> totalDocuments (simpleEmbeddingService (snd (deleteDocument i s)))
       = totalDocuments (simpleEmbeddingService s)"
proof -
  have "totalDocuments (simpleEmbeddingService (run ops initialServices))
        = length (getAllDocuments (run ops initialServices))" if "list_all insertOnly ops"
  proof -
    have c: "counted (run ops initialServices)"
      unfolding run_def using counted_initial that by (rule counted_fold)
    then have "map fst (simpleDocumentService (run ops initialServices))
               = map fst (documents (simpleEmbeddingService (run ops initialServices)))"
      by (simp add: counted_def)
    then have "length (simpleDocumentService (run ops initialServices))
               = length (documents (simpleEmbeddingService (run ops initialServices)))"
      by (rule map_eq_imp_length_eq)
    with c show ?thesis by (simp add: counted_def getAllDocuments_def)
  qed
  moreover have "simpleDocumentService (snd (deleteDocument i s))
                 = filter (\<lambda>(k, d). k \<noteq> i) (simpleDocumentService s)"
    by (simp add: deleteDocument_def delete_filter)
  moreover have "totalDocuments (simpleEmbeddingService (snd (deleteDocument i s)))
                 = totalDocuments (simpleEmbeddingService s)"
    by (simp add: deleteDocument_def)
  ultimately show ?thesis by blast
qed

lemma indexable_zebra: "indexable zebraFile"
  by (simp add: indexable_def zebraFile_def terms_zebra3)

section \<open>Documents without text\<close>

lemma set_update_subset: "set (AList.update k v al) \<subseteq> insert (k, v) (set al)"
  by (induction al) auto

lemma set_delete_subset: "set (AList.delete k al) \<subseteq> set al"
  by (induction al) auto

lemma perform_derived:
  assumes "\<forall>(k, d)\<in>set (simpleDocumentService s). derived d"
  shows "\<forall>(k, d)\<in>set (simpleDocumentService (perform op s)). derived d"
proof (cases op)
  case (Upload u)
  show ?thesis
  proof (cases "getFileExtension (fileName u)")
    case None
    with Upload assms show ?thesis by (simp add: uploadDocument_def)
  next
    case (Some ext)
    obtain r e1 where ge: "getEmbedding (extracted u) (Some (generatedId u))
                            (simpleEmbeddingService s) = (r, e1)"
      by (cases "getEmbedding (extracted u) (Some (generatedId u)) (simpleEmbeddingService s)")
    define doc where "doc =
      \<lparr>id' = generatedId u, filename = fileName u, fileType = ext, uploadedAt = clock u,
       fileSize = fileBytes u, extractedText = extracted u,
       keywords' = extractKeywords (extracted u),
       embedding = (case r of Inl e \<Rightarrow> None | Inr v \<Rightarrow> Some v)\<rparr>"
    have "r = fst (getEmbedding (extracted u) None (simpleEmbeddingService initialServices))"
      using ge getEmbedding_vector [of "extracted u" "Some (generatedId u)" "simpleEmbeddingService s"
          None "simpleEmbeddingService initialServices"]
      by simp
    then have d: "derived doc" by (simp add: derived_def doc_def)
    have upd: "simpleDocumentService (perform op s)
          = AList.update (generatedId u) doc (simpleDocumentService s)"
      using Upload Some ge by (simp add: uploadDocument_def Let_def doc_def)
    have "set (AList.update (generatedId u) doc (simpleDocumentService s))
               \<subseteq> insert (generatedId u, doc) (set (simpleDocumentService s))"
      by (rule set_update_subset)
    with upd assms d show ?thesis by auto
  qed
next
  case (Delete i)
  then have "set (simpleDocumentService (perform op s)) \<subseteq> set (simpleDocumentService s)"
    by (simp add: deleteDocument_def set_delete_subset)
  with assms show ?thesis by auto
next
  case (Search query)
  with assms searchDocuments_frame [of query s] show ?thesis by simp
qed

lemma run_derived:
  "(k, d) \<in> set (simpleDocumentService (run ops initialServices)) \<Longrightarrow> derived d"
proof -
  have "\<forall>(k, d)\<in>set (simpleDocumentService (fold perform ops s)). derived d"
    if "\<forall>(k, d)\<in>set (simpleDocumentService s). derived d" for s
    using that
  proof (induction ops arbitrary: s)
    case Nil
    then show ?case by simp
  next
    case (Cons a ops)
    have "\<forall>(k, d)\<in>set (simpleDocumentService (perform a s)). derived d"
      using Cons.prems by (rule perform_derived)
    then have "\<forall>(k, d)\<in>set (simpleDocumentService (fold perform ops (perform a s))). derived d"
      by (rule Cons.IH)
    then show ?case by simp
  qed
  from this [of initialServices]
  have "\<forall>(k, d)\<in>set (simpleDocumentService (run ops initialServices)). derived d"
    by (simp add: run_def initialServices_def)
  then show "(k, d) \<in> set (simpleDocumentService (run ops initialServices)) \<Longrightarrow> derived d"
    by auto
qed

lemma terms_empty: "expandSemanticTerms (preprocessText []) = Inr []"
  by code_simp

lemma keywords_empty: "extractKeywords [] = []"
  by (simp add: extractKeywords_def toLowerCase_def objectEntries_def arraySort_def)

lemma matchingSentences_empty: "extractedText d = [] \<Longrightarrow> matchingSentences ql d = []"
  by (simp add: matchingSentences_def trim_def)

lemma derived_empty:
  assumes "derived d" "extractedText d = []"
  shows "embedding d = Some (replicate 100 0)" "keywords' d = []"
  using assms by (simp_all add: derived_def getEmbedding_def terms_empty keywords_empty)

lemma scoreDocument_empty:
  assumes "embedding d = Some (replicate 100 0)" "keywords' d = []" "extractedText d = []"
    "\<not> includes' (toLowerCase (filename d)) ql"
  shows "scoreDocument qe ql d = None"
proof -
  have "semanticScoreOf qe d = 0"
    using assms(1) by (simp add: semanticScoreOf_def cosineSimilarity_zero split: option.splits)
  moreover have "keywordScoreOf ql d = 0"
    using assms by (simp add: keywordScoreOf_def matchingSentences_empty)
  ultimately show ?thesis by (simp add: scoreDocument_closed Let_def)
qed

text \<open>
  Claim C3, amended. In every state that a sequence of uploads, deletions and searches
  reaches from the initial services, a stored document with empty extracted text (its keyword
  list is then empty and its vector the zero vector) is in no result of a query that its
  lower-cased file name does not contain.
\<close>

theorem empty_document_excluded:
  assumes "(k, d) \<in> set (simpleDocumentService (run ops initialServices))"
    and "extractedText d = []"
    and "\<not> includes' (toLowerCase (filename d)) (toLowerCase query)"
  shows "d \<notin> document ` set (fst (searchDocuments query (run ops initialServices)))"
proof
  assume "d \<in> document ` set (fst (searchDocuments query (run ops initialServices)))"
  then obtain r where r: "r \<in> set (fst (searchDocuments query (run ops initialServices)))"
    and dr: "document r = d" by auto
  from r obtain qe d' where sc: "scoreDocument qe (toLowerCase query) d' = Some r"
    using searchDocuments_result by blast
  then have "document r = d'" by (rule scoreDocument_document)
  with dr sc have "scoreDocument qe (toLowerCase query) d = Some r" by simp
  moreover have "derived d" using assms(1) by (rule run_derived)
  then have "scoreDocument qe (toLowerCase query) d = None"
    using assms(2,3) by (intro scoreDocument_empty derived_empty)
  ultimately show False by simp
qed

lemma embed_blank:
  "getEmbedding [] (Some ''doc2'') e = (Inr (replicate 100 0), e)"
  by (simp add: getEmbedding_def terms_empty)

lemma upload_blank:
  "run [Upload blankFile] initialServices
   = \<lparr>simpleDocumentService = [(''doc2'', blankDocument)],
      simpleEmbeddingService = simpleEmbeddingService initialServices\<rparr>"
proof -
  have "updateVocabulary (simpleEmbeddingService initialServices) = simpleEmbeddingService initialServices"
    by (simp add: updateVocabulary_def initialServices_def)
  moreover have "simpleDocumentService initialServices = []"
    by (simp add: initialServices_def)
  ultimately show ?thesis
    by (simp add: run_def uploadDocument_def blankFile_def ext_txt embed_blank keywords_empty
        blankDocument_def Let_def)
qed

lemma blank_score:
  "scoreDocument (Some zebraVector) ''zebra'' blankDocument
   = Some \<lparr>document = blankDocument, score = 3 / 10, searchType = Keyword, matchedSections = []\<rparr>"
proof -
  have "semanticScoreOf (Some zebraVector) blankDocument = 0"
    by (simp add: semanticScoreOf_def blankDocument_def cosineSimilarity_zero)
  moreover have "matchingSentences ''zebra'' blankDocument = []"
    by (rule matchingSentences_empty) (simp add: blankDocument_def)
  moreover have "keywordScoreOf ''zebra'' blankDocument = 3 / 10"
    by (simp add: keywordScoreOf_def \<open>matchingSentences ''zebra'' blankDocument = []\<close>)
       (simp add: blankDocument_def toLowerCase_def toLowerChar_def charCode_def)
  ultimately show ?thesis
    by (simp add: scoreDocument_closed Let_def)
qed

lemma search_blank:
  "fst (searchDocuments ''zebra'' (run [Upload blankFile] initialServices))
   = [\<lparr>document = blankDocument, score = 3 / 10, searchType = Keyword, matchedSections = []\<rparr>]"
  by (simp add: searchDocuments_def upload_blank embed_query_zebra lower_zebra blank_score
      arraySort_def Let_def)

text \<open>
  Claim C3 as stated fails: the file name is a keyword signal of its own. A document with
  empty text and no keywords, uploaded as \<open>zebra.txt\<close>, is returned for the query \<open>zebra\<close>
  as a keyword match with score 0.3.
\<close>

theorem empty_document_found_by_filename:
  "getAllDocuments (run [Upload blankFile] initialServices) = [blankDocument]
   \<and> extractedText blankDocument = [] \<and> keywords' blankDocument = []
   \<and> map document (fst (searchDocuments ''zebra'' (run [Upload blankFile] initialServices)))
       = [blankDocument]
   \<and> map score (fst (searchDocuments ''zebra'' (run [Upload blankFile] initialServices))) = [3 / 10]
   \<and> map searchType (fst (searchDocuments ''zebra'' (run [Upload blankFile] initialServices)))
       = [Keyword]"
proof -
  have "getAllDocuments (run [Upload blankFile] initialServices) = [blankDocument]"
    by (simp add: upload_blank getAllDocuments_def)
  moreover have "extractedText blankDocument = [] \<and> keywords' blankDocument = []"
    by (simp add: blankDocument_def)
  ultimately show ?thesis by (simp add: search_blank)
qed

theorem empty_document_excluded_witness:
  "(''doc2'', blankDocument) \<in> set (simpleDocumentService (run [Upload blankFile] initialServices))
   \<and> extractedText blankDocument = []
   \<and> \<not> includes' (toLowerCase (filename blankDocument)) (toLowerCase ''quagga'')
   \<and> blankDocument
       \<notin> document ` set (fst (searchDocuments ''quagga'' (run [Upload blankFile] initialServices)))"
proof -
  have 1: "(''doc2'', blankDocument) \<in> set (simpleDocumentService (run [Upload blankFile] initialServices))"
    by (simp add: upload_blank)
  have 2: "extractedText blankDocument = []"
    by (simp add: blankDocument_def)
  have 3: "\<not> includes' (toLowerCase (filename blankDocument)) (toLowerCase ''quagga'')"
    by (simp add: blankDocument_def toLowerCase_def toLowerChar_def charCode_def)
  from 1 2 3 empty_document_excluded [OF 1 2 3] show ?thesis by blast
qed

section \<open>Term frequencies\<close>

lemma update_new: "k \<notin> fst ` set al \<Longrightarrow> AList.update k v al = al @ [(k, v)]"
  by (induction al) auto

lemma counts_distinct:
  "distinct ws \<Longrightarrow> set ws \<inter> fst ` set acc = {} \<Longrightarrow>
     fold (\<lambda>word wf. AList.update word (orZero (map_of wf word) + 1) wf) ws acc
     = acc @ map (\<lambda>w. (w, 1)) ws"
proof (induction ws arbitrary: acc)
  case Nil
  then show ?case by simp
next
  case (Cons a ws)
  have a: "a \<notin> fst ` set acc" using Cons.prems by auto
  then have "map_of acc a = None" by (simp add: map_of_eq_None_iff)
  with a have step: "AList.update a (orZero (map_of acc a) + 1) acc = acc @ [(a, 1)]"
    by (simp add: update_new orZero_def)
  have "set ws \<inter> fst ` set (acc @ [(a, 1)]) = {}"
    using Cons.prems by auto
  with Cons.IH [of "acc @ [(a, 1)]"] Cons.prems step show ?case by simp
qed

lemma calculateTFIDF_distinct:
  "distinct ws \<Longrightarrow> calculateTFIDF ws = map (\<lambda>w. (w, 1 / real (length ws))) ws"
  by (simp add: calculateTFIDF_def counts_distinct Let_def)

lemma expandSemanticTerms_frequencies:
  assumes "expandSemanticTerms words = Inr expandedWords"
  shows "calculateTFIDF expandedWords
         = map (\<lambda>w. (w, 1 / real (length expandedWords))) expandedWords"
proof -
  have "distinct expandedWords"
    using assms by (auto simp: expandSemanticTerms_def arrayFromSet_def split: sum.splits)
  then show ?thesis by (rule calculateTFIDF_distinct)
qed

lemma words_quagga: "preprocessText ''zebra zebra quagga'' = [''zebra'', ''zebra'', ''quagga'']"
  by code_simp

lemma pushed_quagga:
  "pushExpansions [''zebra'', ''zebra'', ''quagga''] [''zebra'', ''zebra'', ''quagga'']
   = Inr [''zebra'', ''zebra'', ''quagga'']"
  by (simp add: expandWord_def semanticMappings_def objectPrototypeKeys_def reverseLookup_def)

lemma terms_quagga:
  "expandSemanticTerms [''zebra'', ''zebra'', ''quagga''] = Inr [''zebra'', ''quagga'']"
  by code_simp

text \<open>
  Claim C2 fails on the code. \<^const>\<open>expandSemanticTerms\<close> returns the list without
  duplicates, and \<^const>\<open>calculateTFIDF\<close> counts in that list: every term gets the frequency
  1 / (number of distinct terms) (lemma \<open>expandSemanticTerms_frequencies\<close>). For the text
  \<open>zebra zebra quagga\<close> the expanded list before deduplication holds \<open>zebra\<close> twice among
  three tokens, and the stored frequency of \<open>zebra\<close> is 1/2, not 2/3.
\<close>

theorem frequencies_after_deduplication:
  "pushExpansions (preprocessText ''zebra zebra quagga'') (preprocessText ''zebra zebra quagga'')
     = Inr [''zebra'', ''zebra'', ''quagga'']
   \<and> map (tfidf \<circ> snd)
        (documents (snd (getEmbedding ''zebra zebra quagga'' (Some ''doc1'')
                           (simpleEmbeddingService initialServices))))
     = [[(''zebra'', 1 / 2), (''quagga'', 1 / 2)]]"
proof -
  have a: "pushExpansions (preprocessText ''zebra zebra quagga'') (preprocessText ''zebra zebra quagga'')
           = Inr [''zebra'', ''zebra'', ''quagga'']"
    by (simp only: words_quagga pushed_quagga)
  have b: "expandSemanticTerms (preprocessText ''zebra zebra quagga'') = Inr [''zebra'', ''quagga'']"
    by (simp only: words_quagga terms_quagga)
  have "map (tfidf \<circ> snd)
          (documents (snd (getEmbedding ''zebra zebra quagga'' (Some ''doc1'')
                             (simpleEmbeddingService initialServices))))
        = [[(''zebra'', 1 / 2), (''quagga'', 1 / 2)]]"
    by (simp add: getEmbedding_def b expandSemanticTerms_frequencies [OF terms_quagga] Let_def
        initialServices_def)
  with a show ?thesis by (rule conjI)
qed

theorem frequencies_after_deduplication_witness:
  "map (tfidf \<circ> snd)
        (documents (snd (getEmbedding ''zebra zebra quagga'' (Some ''doc1'')
                           (simpleEmbeddingService initialServices))))
   \<noteq> [[(''zebra'', 2 / 3), (''quagga'', 1 / 3)]]"
  using frequencies_after_deduplication by simp

section \<open>A second example: three documents, two of them with equal scores\<close>

lemma ext_txt2: "getFileExtension ''zebras.txt'' = Some Txt"
  by code_simp

lemma terms_zebra4: "expandSemanticTerms (preprocessText ''zebra. zebra. zebra. zebra.'') = Inr [''zebra'']"
  by code_simp

lemma keywords_zebra4: "extractKeywords ''zebra. zebra. zebra. zebra.'' = [''zebra'']"
  by (simp add: extractKeywords_def toLowerCase_def toLowerChar_def charCode_def isSpace_def
      isWordChar_def isStopWord_def objectEntries_def isArrayIndex_def isDigit_def arraySort_def
      countWord_def objectPrototypeKeys_def byCountDescending_def)

lemma embed_zebra_vector:
  "fst (getEmbedding ''zebra. zebra. zebra.'' i e) = Inr zebraVector"
  "fst (getEmbedding ''zebra. zebra. zebra. zebra.'' i e) = Inr zebraVector"
  by (simp_all add: getEmbedding_def terms_zebra3 terms_zebra4 zebraVector_def Let_def)

lemma uploadDocument_store:
  assumes "getFileExtension (fileName f) = Some ext"
  shows "simpleDocumentService (snd (uploadDocument f s))
         = AList.update (generatedId f)
             \<lparr>id' = generatedId f, filename = fileName f, fileType = ext, uploadedAt = clock f,
              fileSize = fileBytes f, extractedText = extracted f,
              keywords' = extractKeywords (extracted f),
              embedding =
                (case fst (getEmbedding (extracted f) (Some (generatedId f)) (simpleEmbeddingService s)) of
                   Inl e \<Rightarrow> None | Inr v \<Rightarrow> Some v)\<rparr>
             (simpleDocumentService s)"
  using assms by (simp add: uploadDocument_def Let_def split_beta)

lemma store_threeZebras:
  "simpleDocumentService (run threeZebras initialServices)
   = [(''doc1'', zebraDocument), (''doc3'', zebraCopyDocument), (''doc4'', zebraLongDocument)]"
proof -
  have 1: "simpleDocumentService (run [Upload zebraFile] initialServices) = [(''doc1'', zebraDocument)]"
    by (simp add: upload_zebra)
  have 2: "simpleDocumentService (snd (uploadDocument zebraCopy s))
           = AList.update ''doc3'' zebraCopyDocument (simpleDocumentService s)" for s
    using uploadDocument_store [of zebraCopy Txt s]
    by (simp add: zebraCopy_def ext_txt embed_zebra_vector keywords_zebra3 zebraCopyDocument_def)
  have 3: "simpleDocumentService (snd (uploadDocument zebraLong s))
           = AList.update ''doc4'' zebraLongDocument (simpleDocumentService s)" for s
    using uploadDocument_store [of zebraLong Txt s]
    by (simp add: zebraLong_def ext_txt2 embed_zebra_vector keywords_zebra4 zebraLongDocument_def)
  have "run threeZebras initialServices
        = snd (uploadDocument zebraLong (snd (uploadDocument zebraCopy
                 (run [Upload zebraFile] initialServices))))"
    by (simp add: run_def threeZebras_def)
  then show ?thesis by (simp add: 1 2 3)
qed

lemma zebraCopy_score:
  "scoreDocument (Some zebraVector) ''zebra'' zebraCopyDocument
   = Some zebraCopyResult"
proof -
  have "semanticScoreOf (Some zebraVector) zebraCopyDocument = 1"
    by (simp add: semanticScoreOf_def zebraCopyDocument_def zebraVector_self)
  moreover have s: "matchingSentences ''zebra'' zebraCopyDocument = [''zebra'', '' zebra'', '' zebra'']"
    by (simp add: matchingSentences_def zebraCopyDocument_def isSentenceEnd_def trim_def isSpace_def
        charCode_def toLowerCase_def toLowerChar_def)
  moreover have "keywordScoreOf ''zebra'' zebraCopyDocument = 21 / 20"
    by (simp add: keywordScoreOf_def s)
       (simp add: zebraCopyDocument_def toLowerCase_def toLowerChar_def charCode_def)
  ultimately show ?thesis
    by (simp add: scoreDocument_closed Let_def zebraCopyResult_def)
qed

lemma zebraLong_sentences:
  "matchingSentences ''zebra'' zebraLongDocument = [''zebra'', '' zebra'', '' zebra'', '' zebra'']"
  by (simp add: matchingSentences_def zebraLongDocument_def isSentenceEnd_def trim_def isSpace_def
      charCode_def toLowerCase_def toLowerChar_def)

lemma zebraLong_score:
  "scoreDocument (Some zebraVector) ''zebra'' zebraLongDocument
   = Some zebraLongResult"
proof -
  have "semanticScoreOf (Some zebraVector) zebraLongDocument = 1"
    by (simp add: semanticScoreOf_def zebraLongDocument_def zebraVector_self)
  moreover note s = zebraLong_sentences
  moreover have "keywordScoreOf ''zebra'' zebraLongDocument = 5 / 4"
    by (simp add: keywordScoreOf_def s)
       (simp add: zebraLongDocument_def toLowerCase_def toLowerChar_def charCode_def)
  ultimately show ?thesis
    by (simp add: scoreDocument_closed Let_def zebraLongResult_def)
qed

lemma search_threeZebras:
  "fst (searchDocuments ''zebra'' (run threeZebras initialServices))
   = [zebraLongResult, zebraResult, zebraCopyResult]"
proof -
  obtain e where "getEmbedding ''zebra'' None (simpleEmbeddingService (run threeZebras initialServices))
                  = (Inr zebraVector, e)"
    by (simp add: embed_query_zebra)
  moreover have "score zebraResult = 203 / 200" "score zebraCopyResult = 203 / 200"
    "score zebraLongResult = 43 / 40"
    by (simp_all add: zebraResult_def zebraCopyResult_def zebraLongResult_def)
  ultimately show ?thesis
    by (simp add: searchDocuments_def lower_zebra store_threeZebras zebra_score zebraCopy_score
        zebraLong_score arraySort_def Let_def)
qed

theorem searchDocuments_ranked_witness:
  "map (id' \<circ> document) (fst (searchDocuments ''zebra'' (run threeZebras initialServices)))
     = [''doc4'', ''doc1'', ''doc3'']
   \<and> map (id' \<circ> snd) (simpleDocumentService (run threeZebras initialServices))
     = [''doc1'', ''doc3'', ''doc4'']
   \<and> length (fst (searchDocuments ''zebra'' (run threeZebras initialServices))) \<le> 10
   \<and> sorted_wrt (\<lambda>a b. score a \<ge> score b)
        (fst (searchDocuments ''zebra'' (run threeZebras initialServices)))
   \<and> subseq (map document (filter (\<lambda>r. score r = 203 / 200)
                   (fst (searchDocuments ''zebra'' (run threeZebras initialServices)))))
        (getAllDocuments (run threeZebras initialServices))"
proof -
  have "map (id' \<circ> document) (fst (searchDocuments ''zebra'' (run threeZebras initialServices)))
        = [''doc4'', ''doc1'', ''doc3'']"
    by (simp add: search_threeZebras zebraResult_def zebraCopyResult_def zebraLongResult_def
        zebraDocument_def zebraCopyDocument_def zebraLongDocument_def)
  moreover have "map (id' \<circ> snd) (simpleDocumentService (run threeZebras initialServices))
        = [''doc1'', ''doc3'', ''doc4'']"
    by (simp add: store_threeZebras zebraDocument_def zebraCopyDocument_def zebraLongDocument_def)
  ultimately show ?thesis
    using searchDocuments_ranked [of "''zebra''" "run threeZebras initialServices" "203 / 200"]
    by blast
qed

theorem matchedSections_shape_witness:
  "zebraLongResult \<in> set (fst (searchDocuments ''zebra'' (run threeZebras initialServices)))
   \<and> length (matchingSentences (toLowerCase ''zebra'') (document zebraLongResult)) = 4
   \<and> length (matchedSections zebraLongResult) \<le> 3
   \<and> list_all (\<lambda>m. context' m = text' m) (matchedSections zebraLongResult)
   \<and> matchedSections zebraLongResult
       = take 3 (map (\<lambda>sen. \<lparr>text' = trim sen, context' = trim sen\<rparr>)
                  (matchingSentences (toLowerCase ''zebra'') (document zebraLongResult)))"
proof -
  have h: "zebraLongResult \<in> set (fst (searchDocuments ''zebra'' (run threeZebras initialServices)))"
    by (simp add: search_threeZebras)
  have "length (matchingSentences (toLowerCase ''zebra'') (document zebraLongResult)) = 4"
    by (simp add: lower_zebra zebraLongResult_def zebraLong_sentences)
  with h matchedSections_shape [OF h] show ?thesis by blast
qed

theorem totalDocuments_insert_only_witness:
  "list_all insertOnly [Upload zebraFile, Search ''zebra'']
   \<and> totalDocuments (simpleEmbeddingService (run [Upload zebraFile, Search ''zebra''] initialServices))
       = length (getAllDocuments (run [Upload zebraFile, Search ''zebra''] initialServices))
   \<and> getAllDocuments (run threeZebras initialServices)
       = [zebraDocument, zebraCopyDocument, zebraLongDocument]
   \<and> getAllDocuments (snd (deleteDocument ''doc3'' (run threeZebras initialServices)))
       = [zebraDocument, zebraLongDocument]
   \<and> simpleDocumentService (snd (deleteDocument ''doc3'' (run threeZebras initialServices)))
       = filter (\<lambda>(k, d). k \<noteq> ''doc3'') (simpleDocumentService (run threeZebras initialServices))
   \<and> totalDocuments (simpleEmbeddingService
          (snd (deleteDocument ''doc3'' (run threeZebras initialServices))))
       = totalDocuments (simpleEmbeddingService (run threeZebras initialServices))"
proof -
  have h: "list_all insertOnly [Upload zebraFile, Search ''zebra'']"
    by (simp add: insertOnly_def indexable_zebra)
  have before: "getAllDocuments (run threeZebras initialServices)
        = [zebraDocument, zebraCopyDocument, zebraLongDocument]"
    by (simp add: getAllDocuments_def store_threeZebras)
  note inst = totalDocuments_insert_only
         [of "[Upload zebraFile, Search ''zebra'']" "''doc3''" "run threeZebras initialServices"]
  from inst have "simpleDocumentService (snd (deleteDocument ''doc3'' (run threeZebras initialServices)))
        = filter (\<lambda>(k, d). k \<noteq> ''doc3'') (simpleDocumentService (run threeZebras initialServices))"
    by blast
  then have after: "getAllDocuments (snd (deleteDocument ''doc3'' (run threeZebras initialServices)))
        = [zebraDocument, zebraLongDocument]"
    by (simp add: getAllDocuments_def store_threeZebras)
  from h before after inst show ?thesis by blast
qed

end
